theory Spec2Isabelle
  imports Complex_Main "HOL-Library.AList"
begin

section \<open>Emission Atlas: a shallow embedding of \<^verbatim>\<open>emission_atlas.py\<close> and \<^verbatim>\<open>package_release.py\<close>\<close>

text \<open>
  Conventions of the embedding.
  \<^item> Python floats are idealised as exact reals (\<^typ>\<open>real\<close>); image sizes, pixel
    positions and list indices, which the host application keeps non-negative, are
    \<^typ>\<open>nat\<close>; other Python integers are \<^typ>\<open>int\<close>.
  \<^item> A raised exception is the \<open>Inl\<close> branch of a sum.
  \<^item> A Python \<open>dict\<close> is an association list in insertion order; storing under a key
    that is present replaces the value in place (\<^const>\<open>AList.update\<close>).
  \<^item> Data blocks of the host (materials, images) are referred to by their names, which
    the host keeps unique inside each collection.
\<close>

subsection \<open>Exceptions and loops that may raise\<close>

datatype py_error = IndexError | KeyError | ZeroDivisionError | ValueError | AttributeError
  | FileNotFoundError | FileExistsError | IsADirectoryError | NotADirectoryError

text \<open>A \<open>for\<close> loop whose body may raise: the first exception ends the loop.\<close>

fun foldE :: "('a \<Rightarrow> 's \<Rightarrow> py_error + 's) \<Rightarrow> 'a list \<Rightarrow> 's \<Rightarrow> py_error + 's" where
  "foldE f [] s = Inr s"
| "foldE f (x # xs) s = (case f x s of Inl e \<Rightarrow> Inl e | Inr s' \<Rightarrow> foldE f xs s')"

text \<open>Item assignment \<open>xs[i] = v\<close> on a Python list, for a non-negative index.\<close>

definition list_assign :: "'a list \<Rightarrow> nat \<Rightarrow> 'a \<Rightarrow> py_error + 'a list" where
  "list_assign xs i v = (if i < length xs then Inr (xs[i := v]) else Inl IndexError)"

text \<open>Item read \<open>xs[i]\<close> on a Python list, for a non-negative index.\<close>

definition list_item :: "'a list \<Rightarrow> nat \<Rightarrow> py_error + 'a" where
  "list_item xs i = (if i < length xs then Inr (xs ! i) else Inl IndexError)"

subsection \<open>Colours and images\<close>

type_synonym color = "real \<times> real \<times> real"
type_synonym rgba = "real \<times> real \<times> real \<times> real"

text \<open>\<open>default_value[:3]\<close> of a colour socket.\<close>

fun rgb_of :: "rgba \<Rightarrow> color" where
  "rgb_of (r, g, b, a) = (r, g, b)"

text \<open>
  An image of the host: its name, \<open>size\<close>, the flat pixel buffer
  \<open>[R, G, B, A, ...]\<close> and the custom property \<open>"atlas_columns"\<close> (absent: \<open>None\<close>).
\<close>

record image =
  img_name :: string
  img_width :: nat
  img_height :: nat
  img_pixels :: "real list"
  atlas_columns :: "int option"

text \<open>
  \<open>bpy.data.images.new\<close> without \<open>float_buffer\<close> makes an image of 8 bits per
  channel. A value assigned to \<open>img.pixels\<close> is clamped to \<open>[0, 1]\<close> and kept as the
  nearest of the levels \<open>k / 255\<close>; this is the value read back from \<open>img.pixels\<close>.
\<close>

definition store_byte :: "real \<Rightarrow> real" where
  "store_byte c =
     (if c \<le> 0 then 0
      else if 1 \<le> c then 1
      else real_of_int \<lfloor>255 * c + 1 / 2\<rfloor> / 255)"


subsection \<open>\<^verbatim>\<open>create_texture_atlas\<close>\<close>

definition px_index :: "nat \<Rightarrow> nat \<Rightarrow> nat \<Rightarrow> nat \<Rightarrow> nat" where
  "px_index atlas_width x_start x y = ((y * atlas_width) + (x_start + x)) * 4"

text \<open>The four stores of the innermost loop body.\<close>

definition write_pixel :: "color \<Rightarrow> nat \<Rightarrow> real list \<Rightarrow> py_error + real list" where
  "write_pixel c p pixels =
     (case c of (r, g, b) \<Rightarrow>
        (case list_assign pixels (p + 0) r of Inl e \<Rightarrow> Inl e | Inr p0 \<Rightarrow>
        (case list_assign p0 (p + 1) g of Inl e \<Rightarrow> Inl e | Inr p1 \<Rightarrow>
        (case list_assign p1 (p + 2) b of Inl e \<Rightarrow> Inl e | Inr p2 \<Rightarrow>
         list_assign p2 (p + 3) 1))))"

text \<open>\<open>for x in range(column_width): for y in range(atlas_height): ...\<close>\<close>

definition fill_column ::
  "color \<Rightarrow> nat \<Rightarrow> nat \<Rightarrow> nat \<Rightarrow> nat \<Rightarrow> real list \<Rightarrow> py_error + real list" where
  "fill_column c atlas_width atlas_height column_width x_start pixels =
     foldE (\<lambda>x. foldE (\<lambda>y. write_pixel c (px_index atlas_width x_start x y)) [0..<atlas_height])
       [0..<column_width] pixels"

text \<open>
  The body of \<open>for i, mat_name in enumerate(mat_list)\<close>:
  \<open>color = material_colors[mat_name]\<close>, \<open>x_start = i * column_width\<close>, then the
  two nested loops.
\<close>

definition fill_material ::
  "(string \<times> color) list \<Rightarrow> nat \<Rightarrow> nat \<Rightarrow> nat \<Rightarrow> nat \<times> string \<Rightarrow> real list
     \<Rightarrow> py_error + real list" where
  "fill_material material_colors atlas_width atlas_height column_width =
     (\<lambda>(i, mat_name) px.
        (case map_of material_colors mat_name of
           None \<Rightarrow> Inl KeyError
         | Some c \<Rightarrow> fill_column c atlas_width atlas_height column_width (i * column_width) px))"

definition fill_atlas ::
  "(string \<times> color) list \<Rightarrow> nat \<Rightarrow> nat \<Rightarrow> nat \<Rightarrow> real list \<Rightarrow> py_error + real list" where
  "fill_atlas material_colors atlas_width atlas_height column_width pixels =
     foldE (fill_material material_colors atlas_width atlas_height column_width)
       (enumerate 0 (map fst material_colors)) pixels"

text \<open>
  \<open>nm\<close> is the name under which \<open>bpy.data.images.new\<close> registers the image.
  \<open>img.pixels = pixels\<close> stores the buffer in the 8-bit image. Saving the image to
  disk has no effect on the data modelled here.
\<close>

definition create_texture_atlas ::
  "string \<Rightarrow> (string \<times> color) list \<Rightarrow> nat \<Rightarrow> nat \<Rightarrow> py_error + image option" where
  "create_texture_atlas nm material_colors atlas_width atlas_height =
     (let mat_list = map fst material_colors;
          mat_count = length mat_list
      in if mat_count = 0 then Inr None
         else
           let column_width = atlas_width div mat_count;
               pixels = replicate (atlas_width * atlas_height * 4) (0::real)
           in (case fill_atlas material_colors atlas_width atlas_height column_width pixels of
                 Inl e \<Rightarrow> Inl e
               | Inr px \<Rightarrow>
                   Inr (Some \<lparr>img_name = nm, img_width = atlas_width, img_height = atlas_height,
                              img_pixels = map store_byte px,
                              atlas_columns = Some (int mat_count)\<rparr>)))"

subsection \<open>The data of the host application\<close>

text \<open>
  A shader node: its \<open>type\<close>, the default value of its \<open>"Color"\<close> input and, for an
  image texture node, the image it refers to.
\<close>

record node =
  node_type :: string
  color_default :: rgba
  node_image :: "string option"

record material =
  mat_name :: string
  use_nodes :: bool
  nodes :: "node list"

text \<open>A face: its material slot index and the UV of each of its loops.\<close>

record face =
  material_index :: nat
  loops :: "(real \<times> real) list"

text \<open>
  Object data (\<open>obj.data\<close>): the material slots, each holding a material or nothing,
  and the faces. The slots of an object are the slots of its data.
\<close>

record mesh =
  mesh_materials :: "string option list"
  faces :: "face list"

text \<open>
  An object refers to its data by an identifier; several objects may share one data
  block.
\<close>

record object =
  obj_name :: string
  obj_type :: string
  obj_data :: nat

text \<open>
  The state the operators work on: \<open>bpy.data.materials\<close>, \<open>bpy.data.images\<close>, the
  object data blocks, \<open>context.selected_objects\<close> and the module's global
  \<open>ORIGINAL_MATERIALS\<close>.
\<close>

record blend =
  data_materials :: "material list"
  data_images :: "image list"
  data_meshes :: "nat \<Rightarrow> mesh option"
  selected_objects :: "object list"
  ORIGINAL_MATERIALS :: "(string \<times> string option list) list"

datatype op_result = FINISHED | CANCELLED

text \<open>\<open>str(n)\<close> for a non-negative integer.\<close>

definition digit_char :: "nat \<Rightarrow> char" where
  "digit_char d = ''0123456789'' ! d"

fun str_nat :: "nat \<Rightarrow> string" where
  "str_nat n = (if n < 10 then [digit_char n] else str_nat (n div 10) @ [digit_char (n mod 10)])"

declare str_nat.simps [simp del]

text \<open>
  The name a new data block gets: the requested one when it is free, otherwise the
  requested one with the first free numeric suffix \<open>.001\<close>, \<open>.002\<close>, ...
\<close>

definition pad3 :: "nat \<Rightarrow> string" where
  "pad3 k = (let s = str_nat k in replicate (3 - length s) (CHR ''0'') @ s)"

definition unique_name :: "string \<Rightarrow> string list \<Rightarrow> string" where
  "unique_name base names =
     (if base \<notin> set names then base
      else (case find (\<lambda>c. c \<notin> set names)
                   (map (\<lambda>k. base @ ''.'' @ pad3 k) [1..<length names + 2]) of
              Some c \<Rightarrow> c
            | None \<Rightarrow> base))"

definition lookup_material :: "material list \<Rightarrow> string \<Rightarrow> material option" where
  "lookup_material mats nm = find (\<lambda>m. mat_name m = nm) mats"

definition lookup_image :: "image list \<Rightarrow> string \<Rightarrow> image option" where
  "lookup_image imgs nm = find (\<lambda>im. img_name im = nm) imgs"

subsection \<open>\<^verbatim>\<open>get_simple_emission_materials\<close>\<close>

text \<open>
  The inner loop with its \<open>break\<close>: the colour of the first node of type
  \<open>'EMISSION'\<close>, for a material that uses nodes.
\<close>

definition emission_color :: "material \<Rightarrow> color option" where
  "emission_color mat =
     (if use_nodes mat
      then (case find (\<lambda>nd. node_type nd = ''EMISSION'') (nodes mat) of
              None \<Rightarrow> None
            | Some nd \<Rightarrow> Some (rgb_of (color_default nd)))
      else None)"

definition get_simple_emission_materials :: "material list \<Rightarrow> (string \<times> color) list" where
  "get_simple_emission_materials mats =
     foldl (\<lambda>emission_materials mat.
              (case emission_color mat of
                 None \<Rightarrow> emission_materials
               | Some c \<Rightarrow> AList.update (mat_name mat) c emission_materials))
       [] mats"

subsection \<open>\<^verbatim>\<open>create_atlas_material\<close> and \<^verbatim>\<open>create_single_color_emission_material\<close>\<close>

text \<open>
  The new material has exactly the three nodes the function adds; the emission node
  keeps the default colour of the host (white), its input being linked to the texture.
\<close>

definition create_atlas_material :: "image \<Rightarrow> material list \<Rightarrow> material" where
  "create_atlas_material texture mats =
     \<lparr>mat_name = unique_name ''AtlasMaterial'' (map mat_name mats),
      use_nodes = True,
      nodes = [\<lparr>node_type = ''TEX_IMAGE'', color_default = (0, 0, 0, 1),
                 node_image = Some (img_name texture)\<rparr>,
               \<lparr>node_type = ''EMISSION'', color_default = (1, 1, 1, 1), node_image = None\<rparr>,
               \<lparr>node_type = ''OUTPUT_MATERIAL'', color_default = (0, 0, 0, 1),
                 node_image = None\<rparr>]\<rparr>"

definition create_single_color_emission_material :: "string \<Rightarrow> color \<Rightarrow> material list \<Rightarrow> material" where
  "create_single_color_emission_material name c mats =
     (case c of (r, g, b) \<Rightarrow>
        \<lparr>mat_name = unique_name name (map mat_name mats),
         use_nodes = True,
         nodes = [\<lparr>node_type = ''EMISSION'', color_default = (r, g, b, 1), node_image = None\<rparr>,
                  \<lparr>node_type = ''OUTPUT_MATERIAL'', color_default = (0, 0, 0, 1),
                    node_image = None\<rparr>]\<rparr>)"

subsection \<open>\<^verbatim>\<open>remap_uvs\<close>\<close>

text \<open>A loop over a list that builds a new list and may raise.\<close>

fun mapE :: "('a \<Rightarrow> py_error + 'b) \<Rightarrow> 'a list \<Rightarrow> py_error + 'b list" where
  "mapE f [] = Inr []"
| "mapE f (x # xs) =
     (case f x of Inl e \<Rightarrow> Inl e
      | Inr y \<Rightarrow> (case mapE f xs of Inl e \<Rightarrow> Inl e | Inr ys \<Rightarrow> Inr (y # ys)))"

text \<open>
  \<open>column_width = atlas_width / mat_count\<close>, \<open>u_min\<close>, \<open>u_max\<close> and \<open>u_center\<close> for
  column \<open>i\<close>; a division by zero raises.
\<close>

definition u_center :: "nat \<Rightarrow> nat \<Rightarrow> nat \<Rightarrow> py_error + real" where
  "u_center atlas_width mat_count i =
     (if mat_count = 0 \<or> atlas_width = 0 then Inl ZeroDivisionError
      else
        let column_width = real atlas_width / real mat_count;
            u_min = (real i * column_width) / real atlas_width;
            u_max = ((real i + 1) * column_width) / real atlas_width
        in Inr ((u_min + u_max) * 0.5))"

definition remap_face ::
  "string option list \<Rightarrow> (string \<times> nat) list \<Rightarrow> nat \<Rightarrow> face \<Rightarrow> py_error + face" where
  "remap_face material_slots mat_index_map atlas_width f =
     (if material_index f < length material_slots
      then (case material_slots ! material_index f of
              None \<Rightarrow> Inr f
            | Some nm \<Rightarrow>
                (case map_of mat_index_map nm of
                   None \<Rightarrow> Inr f
                 | Some i \<Rightarrow>
                     (case u_center atlas_width (length mat_index_map) i of
                        Inl e \<Rightarrow> Inl e
                      | Inr u \<Rightarrow> Inr (f\<lparr>loops := map (\<lambda>_. (u, 0.5)) (loops f)\<rparr>))))
      else Inr f)"

definition remap_uvs :: "mesh \<Rightarrow> (string \<times> nat) list \<Rightarrow> nat \<Rightarrow> nat \<Rightarrow> py_error + mesh" where
  "remap_uvs me mat_index_map atlas_width atlas_height =
     (let mat_count = length mat_index_map
      in if mat_count = 0 then Inr me
         else (case mapE (remap_face (mesh_materials me) mat_index_map atlas_width) (faces me) of
                 Inl e \<Rightarrow> Inl e
               | Inr fs \<Rightarrow> Inr (me\<lparr>faces := fs\<rparr>)))"

subsection \<open>Operator \<^verbatim>\<open>ConvertToEmissionAtlas\<close> (Create Atlas)\<close>

text \<open>
  Step 2 of \<open>execute\<close>:
  \<open>for idx, mat_name in enumerate(materials.keys()): mat_index_map[mat_name] = idx\<close>.
\<close>

definition build_index_map :: "(string \<times> color) list \<Rightarrow> (string \<times> nat) list" where
  "build_index_map materials =
     foldl (\<lambda>mat_index_map (idx, mat_name). AList.update mat_name idx mat_index_map)
       [] (enumerate 0 (map fst materials))"

text \<open>
  Step 6, the body of \<open>for obj in context.selected_objects\<close>: store the slots in
  \<open>ORIGINAL_MATERIALS\<close>, remap the UVs, then clear the slots of \<open>obj.data\<close> and append
  the atlas material.
\<close>

definition convert_object ::
  "(string \<times> nat) list \<Rightarrow> image \<Rightarrow> string \<Rightarrow> object \<Rightarrow> blend \<Rightarrow> py_error + blend" where
  "convert_object mat_index_map atlas atlas_mat obj st =
     (if obj_type obj = ''MESH''
      then (case data_meshes st (obj_data obj) of
              None \<Rightarrow> Inl AttributeError
            | Some me \<Rightarrow>
                (let originals = AList.update (obj_name obj) (mesh_materials me)
                                   (ORIGINAL_MATERIALS st)
                 in case remap_uvs me mat_index_map (img_width atlas) (img_height atlas) of
                      Inl e \<Rightarrow> Inl e
                    | Inr me' \<Rightarrow>
                        Inr (st\<lparr>ORIGINAL_MATERIALS := originals,
                                data_meshes := (data_meshes st)
                                  (obj_data obj \<mapsto> me'\<lparr>mesh_materials := [Some atlas_mat]\<rparr>)\<rparr>)))
      else Inr st)"

definition ConvertToEmissionAtlas_execute :: "blend \<Rightarrow> py_error + (op_result \<times> blend)" where
  "ConvertToEmissionAtlas_execute st =
     (let materials = get_simple_emission_materials (data_materials st)
      in if materials = [] then Inr (CANCELLED, st)
         else
           let mat_index_map = build_index_map materials
           in (case create_texture_atlas
                      (unique_name ''Emission_Atlas'' (map img_name (data_images st)))
                      materials 1024 256 of
                 Inl e \<Rightarrow> Inl e
               | Inr None \<Rightarrow> Inr (CANCELLED, st)
               | Inr (Some atlas) \<Rightarrow>
                   (let atlas_mat = create_atlas_material atlas (data_materials st);
                        st1 = st\<lparr>data_images := data_images st @ [atlas],
                                 data_materials := data_materials st @ [atlas_mat],
                                 ORIGINAL_MATERIALS := []\<rparr>
                    in case foldE (convert_object mat_index_map atlas (mat_name atlas_mat))
                              (selected_objects st1) st1 of
                         Inl e \<Rightarrow> Inl e
                       | Inr st2 \<Rightarrow> Inr (FINISHED, st2))))"

subsection \<open>Operator \<^verbatim>\<open>RevertEmissionAtlas\<close> (Revert Atlas)\<close>

text \<open>
  The body of the loop over the selected objects: for an object whose name is a key of
  \<open>ORIGINAL_MATERIALS\<close> and whose type is \<open>'MESH'\<close>, the slots are cleared and the
  stored materials that still exist in \<open>bpy.data.materials\<close> are appended.
\<close>

definition revert_object :: "object \<Rightarrow> blend \<Rightarrow> py_error + blend" where
  "revert_object obj st =
     (case map_of (ORIGINAL_MATERIALS st) (obj_name obj) of
        None \<Rightarrow> Inr st
      | Some mat_list \<Rightarrow>
          if obj_type obj = ''MESH''
          then (case data_meshes st (obj_data obj) of
                  None \<Rightarrow> Inl AttributeError
                | Some me \<Rightarrow>
                    Inr (st\<lparr>data_meshes := (data_meshes st)
                          (obj_data obj \<mapsto>
                             me\<lparr>mesh_materials :=
                                  filter (\<lambda>mat. case mat of
                                                  None \<Rightarrow> False
                                                | Some nm \<Rightarrow> nm \<in> set (map mat_name (data_materials st)))
                                    mat_list\<rparr>)\<rparr>))
          else Inr st)"

definition RevertEmissionAtlas_execute :: "blend \<Rightarrow> py_error + (op_result \<times> blend)" where
  "RevertEmissionAtlas_execute st =
     (if ORIGINAL_MATERIALS st = [] then Inr (CANCELLED, st)
      else (case foldE revert_object (selected_objects st) st of
              Inl e \<Rightarrow> Inl e
            | Inr st' \<Rightarrow> Inr (FINISHED, st')))"

subsection \<open>Operator \<^verbatim>\<open>UnpackEmissionAtlas\<close> (Unpack Atlas)\<close>

fun first_some :: "'a option list \<Rightarrow> 'a option" where
  "first_some [] = None"
| "first_some (None # xs) = first_some xs"
| "first_some (Some x # xs) = Some x"

text \<open>
  Step 1: the image of the first image texture node that carries the
  \<open>"atlas_columns"\<close> property, in the first slot whose material has such a node.
\<close>

definition node_atlas_image :: "image list \<Rightarrow> node \<Rightarrow> image option" where
  "node_atlas_image imgs nd =
     (if node_type nd = ''TEX_IMAGE''
      then (case node_image nd of
              None \<Rightarrow> None
            | Some inm \<Rightarrow>
                (case lookup_image imgs inm of
                   None \<Rightarrow> None
                 | Some im \<Rightarrow> if atlas_columns im \<noteq> None then Some im else None))
      else None)"

definition slot_atlas_image :: "blend \<Rightarrow> string option \<Rightarrow> image option" where
  "slot_atlas_image st slot =
     (case slot of
        None \<Rightarrow> None
      | Some nm \<Rightarrow>
          (case lookup_material (data_materials st) nm of
             None \<Rightarrow> None
           | Some mat \<Rightarrow>
               if use_nodes mat
               then first_some (map (node_atlas_image (data_images st)) (nodes mat))
               else None))"

definition find_atlas_image :: "blend \<Rightarrow> string option list \<Rightarrow> image option" where
  "find_atlas_image st material_slots = first_some (map (slot_atlas_image st) material_slots)"

text \<open>\<open>columns = int(atlas_image.get("atlas_columns", 1))\<close>, raised to 1 when smaller.\<close>

definition atlas_column_count :: "image \<Rightarrow> int" where
  "atlas_column_count atlas_image =
     (let columns = (case atlas_columns atlas_image of None \<Rightarrow> 1 | Some c \<Rightarrow> c)
      in if columns < 1 then 1 else columns)"

text \<open>
  Step 2, the sampling of column \<open>i\<close>: \<open>center_x = int((i + 0.5) * column_width)\<close>,
  \<open>center_y = atlas_height // 2\<close> and the three reads of the pixel buffer.
\<close>

definition center_x_of :: "nat \<Rightarrow> nat \<Rightarrow> nat" where
  "center_x_of column_width i = nat \<lfloor>(real i + 0.5) * real column_width\<rfloor>"

definition sample_center :: "real list \<Rightarrow> nat \<Rightarrow> nat \<Rightarrow> nat \<Rightarrow> nat \<Rightarrow> py_error + color" where
  "sample_center pixels atlas_width atlas_height column_width i =
     (let center_x = center_x_of column_width i;
          center_y = atlas_height div 2;
          p = ((center_y * atlas_width) + center_x) * 4
      in (case list_item pixels (p + 0) of Inl e \<Rightarrow> Inl e | Inr r \<Rightarrow>
         (case list_item pixels (p + 1) of Inl e \<Rightarrow> Inl e | Inr g \<Rightarrow>
         (case list_item pixels (p + 2) of Inl e \<Rightarrow> Inl e | Inr b \<Rightarrow> Inr (r, g, b)))))"

text \<open>
  The body of \<open>for i in range(columns)\<close>: a material named
  \<open>UnpackedAtlasColor_{i}\<close> that exists already is reused, otherwise a new one is
  created with the sampled colour. The pair threaded through the loop is \<open>new_mats\<close>
  and \<open>bpy.data.materials\<close>.
\<close>

definition unpacked_name :: "nat \<Rightarrow> string" where
  "unpacked_name i = ''UnpackedAtlasColor_'' @ str_nat i"

definition unpack_material ::
  "real list \<Rightarrow> nat \<Rightarrow> nat \<Rightarrow> nat \<Rightarrow> nat \<Rightarrow> string list \<times> material list
     \<Rightarrow> py_error + string list \<times> material list" where
  "unpack_material pixels atlas_width atlas_height column_width i =
     (\<lambda>(new_mats, mats).
        (case sample_center pixels atlas_width atlas_height column_width i of
           Inl e \<Rightarrow> Inl e
         | Inr c \<Rightarrow>
             (let name = unpacked_name i
              in if name \<in> set (map mat_name mats)
                 then Inr (new_mats @ [name], mats)
                 else
                   let new_mat = create_single_color_emission_material name c mats
                   in Inr (new_mats @ [mat_name new_mat], mats @ [new_mat]))))"

text \<open>
  Step 4, the column of a UV: \<open>x_pix = uv.x * atlas_width\<close>, clamped;
  \<open>col_index = int(x_pix // column_width_float)\<close>, clamped. Floor division by
  \<open>0.0\<close> raises.
\<close>

definition col_index_of :: "nat \<Rightarrow> int \<Rightarrow> real \<Rightarrow> py_error + int" where
  "col_index_of atlas_width columns u =
     (if columns = 0 then Inl ZeroDivisionError
      else
        let column_width_float = real atlas_width / real_of_int columns;
            x_pix = u * real atlas_width;
            x_pix = (if x_pix < 0 then 0
                     else if x_pix \<ge> real atlas_width then real atlas_width - 1
                     else x_pix)
        in if column_width_float = 0 then Inl ZeroDivisionError
           else
             let col_index = \<lfloor>x_pix / column_width_float\<rfloor>;
                 col_index = (if col_index < 0 then 0
                              else if col_index \<ge> columns then columns - 1
                              else col_index)
             in Inr col_index)"

definition reclassify_face :: "nat \<Rightarrow> int \<Rightarrow> face \<Rightarrow> py_error + face" where
  "reclassify_face atlas_width columns f =
     (if length (loops f) = 0 then Inr f
      else (case col_index_of atlas_width columns (fst (loops f ! 0)) of
              Inl e \<Rightarrow> Inl e
            | Inr col_index \<Rightarrow> Inr (f\<lparr>material_index := nat col_index\<rparr>)))"

text \<open>
  The body of the loop over the selected objects. The pair threaded through the loop
  is \<open>created_material_sets\<close> and the state of the host.
\<close>

definition unpack_object ::
  "object \<Rightarrow> (string \<times> string list) list \<times> blend
     \<Rightarrow> py_error + (string \<times> string list) list \<times> blend" where
  "unpack_object obj =
     (\<lambda>(created_material_sets, st).
        if obj_type obj \<noteq> ''MESH'' then Inr (created_material_sets, st)
        else
          (case data_meshes st (obj_data obj) of
             None \<Rightarrow> Inl AttributeError
           | Some me \<Rightarrow>
               (case find_atlas_image st (mesh_materials me) of
                  None \<Rightarrow> Inr (created_material_sets, st)
                | Some atlas_image \<Rightarrow>
                    (let atlas_width = img_width atlas_image;
                         atlas_height = img_height atlas_image;
                         columns = atlas_column_count atlas_image
                     in case (if img_name atlas_image \<notin> set (map fst created_material_sets)
                              then (case foldE (unpack_material (img_pixels atlas_image)
                                                  atlas_width atlas_height
                                                  (atlas_width div nat columns))
                                           [0..<nat columns] ([], data_materials st) of
                                      Inl e \<Rightarrow> Inl e
                                    | Inr (new_mats, mats) \<Rightarrow>
                                        Inr (AList.update (img_name atlas_image) new_mats
                                               created_material_sets,
                                             st\<lparr>data_materials := mats\<rparr>))
                              else Inr (created_material_sets, st)) of
                          Inl e \<Rightarrow> Inl e
                        | Inr (created1, st1) \<Rightarrow>
                            (case map_of created1 (img_name atlas_image) of
                               None \<Rightarrow> Inl KeyError
                             | Some new_materials \<Rightarrow>
                                 (let me1 = me\<lparr>mesh_materials := map Some new_materials\<rparr>
                                  in case mapE (reclassify_face atlas_width columns) (faces me1) of
                                       Inl e \<Rightarrow> Inl e
                                     | Inr fs \<Rightarrow>
                                         Inr (created1,
                                              st1\<lparr>data_meshes := (data_meshes st1)
                                                    (obj_data obj \<mapsto> me1\<lparr>faces := fs\<rparr>)\<rparr>)))))))"

definition UnpackEmissionAtlas_execute :: "blend \<Rightarrow> py_error + (op_result \<times> blend)" where
  "UnpackEmissionAtlas_execute st =
     (case foldE unpack_object (selected_objects st) ([], st) of
        Inl e \<Rightarrow> Inl e
      | Inr (created_material_sets, st') \<Rightarrow> Inr (FINISHED, st'))"

subsection \<open>Reading the pixel buffer\<close>

text \<open>The channel \<open>k\<close> of a pixel that holds colour \<open>c\<close> with alpha 1.\<close>

fun channel :: "color \<Rightarrow> nat \<Rightarrow> real" where
  "channel (r, g, b) k = (if k = 0 then r else if k = 1 then g else if k = 2 then b else 1)"

text \<open>
  The pixel a UV coordinate falls on: \<open>uv.x * atlas_width\<close> as in the Unpack
  operator, and likewise for \<open>v\<close>, rounded down.
\<close>

definition uv_pixel :: "nat \<Rightarrow> nat \<Rightarrow> real \<times> real \<Rightarrow> nat \<times> nat" where
  "uv_pixel atlas_width atlas_height uv =
     (nat \<lfloor>fst uv * real atlas_width\<rfloor>, nat \<lfloor>snd uv * real atlas_height\<rfloor>)"

subsection \<open>The packaging script \<^verbatim>\<open>package_release.py\<close>: strings\<close>

text \<open>\<open>s.split(c)\<close> for a separator of one character, and \<open>sep.join(xs)\<close>.\<close>

fun split_on :: "char \<Rightarrow> string \<Rightarrow> string list" where
  "split_on c [] = [[]]"
| "split_on c (x # xs) =
     (if x = c then [] # split_on c xs
      else (case split_on c xs of
              w # ws \<Rightarrow> (x # w) # ws
            | [] \<Rightarrow> [[x]]))"

fun join_with :: "string \<Rightarrow> string list \<Rightarrow> string" where
  "join_with sep [] = []"
| "join_with sep [x] = x"
| "join_with sep (x # y # ys) = x @ sep @ join_with sep (y # ys)"

definition starts_with :: "string \<Rightarrow> string \<Rightarrow> bool" where
  "starts_with p s = (take (length p) s = p)"

text \<open>\<open>str(i)\<close> for an integer.\<close>

definition str_int :: "int \<Rightarrow> string" where
  "str_int i = (if i < 0 then ''-'' @ str_nat (nat (- i)) else str_nat (nat i))"

text \<open>
  \<open>int(s)\<close> for a string: an optional sign followed by at least one decimal digit;
  anything else raises \<open>ValueError\<close>. (Python also accepts surrounding white space and
  underscores between digits; the strings the script passes have neither.)
\<close>

definition digit_val :: "char \<Rightarrow> nat option" where
  "digit_val c =
     (case find (\<lambda>d. digit_char d = c) [0..<10] of None \<Rightarrow> None | Some d \<Rightarrow> Some d)"

fun digits_val :: "nat \<Rightarrow> string \<Rightarrow> nat option" where
  "digits_val acc [] = Some acc"
| "digits_val acc (c # cs) =
     (case digit_val c of None \<Rightarrow> None | Some d \<Rightarrow> digits_val (10 * acc + d) cs)"

definition parse_nat :: "string \<Rightarrow> py_error + nat" where
  "parse_nat s =
     (if s = [] then Inl ValueError
      else (case digits_val 0 s of None \<Rightarrow> Inl ValueError | Some n \<Rightarrow> Inr n))"

definition py_int :: "string \<Rightarrow> py_error + int" where
  "py_int s =
     (case s of
        [] \<Rightarrow> Inl ValueError
      | c # cs \<Rightarrow>
          if c = CHR ''-'' then (case parse_nat cs of Inl e \<Rightarrow> Inl e | Inr n \<Rightarrow> Inr (- int n))
          else if c = CHR ''+'' then (case parse_nat cs of Inl e \<Rightarrow> Inl e | Inr n \<Rightarrow> Inr (int n))
          else (case parse_nat s of Inl e \<Rightarrow> Inl e | Inr n \<Rightarrow> Inr (int n)))"

subsection \<open>The packaging script: the file system\<close>

text \<open>
  The working directory: an association list from relative paths to entries, a regular
  file with its content or a directory.
\<close>

datatype entry = File string | Dir

type_synonym filesystem = "(string \<times> entry) list"

definition path_exists :: "filesystem \<Rightarrow> string \<Rightarrow> bool" where
  "path_exists fs p = (map_of fs p \<noteq> None)"

definition is_under :: "string \<Rightarrow> string \<Rightarrow> bool" where
  "is_under d p = (take (length d + 1) p = d @ ''/'')"

text \<open>\<open>open(p, 'r').read()\<close>\<close>

definition read_text :: "filesystem \<Rightarrow> string \<Rightarrow> py_error + string" where
  "read_text fs p =
     (case map_of fs p of
        None \<Rightarrow> Inl FileNotFoundError
      | Some Dir \<Rightarrow> Inl IsADirectoryError
      | Some (File c) \<Rightarrow> Inr c)"

text \<open>\<open>shutil.rmtree(d)\<close>: the directory and everything below it.\<close>

definition rmtree :: "filesystem \<Rightarrow> string \<Rightarrow> py_error + filesystem" where
  "rmtree fs d =
     (case map_of fs d of
        None \<Rightarrow> Inl FileNotFoundError
      | Some (File c) \<Rightarrow> Inl NotADirectoryError
      | Some Dir \<Rightarrow> Inr (filter (\<lambda>(p, e). p \<noteq> d \<and> \<not> is_under d p) fs))"

text \<open>\<open>os.mkdir(d)\<close> for a name in the working directory.\<close>

definition mkdir :: "filesystem \<Rightarrow> string \<Rightarrow> py_error + filesystem" where
  "mkdir fs d = (if path_exists fs d then Inl FileExistsError else Inr (fs @ [(d, Dir)]))"

text \<open>
  Creating or truncating a file for writing. A path with a separator needs its parent
  directory.
\<close>

definition parent_dir :: "string \<Rightarrow> string" where
  "parent_dir p = rev (tl (dropWhile (\<lambda>c. c \<noteq> CHR ''/'') (rev p)))"

definition create_file :: "filesystem \<Rightarrow> string \<Rightarrow> string \<Rightarrow> py_error + filesystem" where
  "create_file fs p c =
     (if map_of fs p = Some Dir then Inl IsADirectoryError
      else if CHR ''/'' \<in> set p \<and> map_of fs (parent_dir p) \<noteq> Some Dir then Inl FileNotFoundError
      else Inr (AList.update p (File c) fs))"

text \<open>
  \<open>shutil.copy(src, dst)\<close> for a source in the working directory and a destination
  directory.
\<close>

definition copy :: "filesystem \<Rightarrow> string \<Rightarrow> string \<Rightarrow> py_error + filesystem" where
  "copy fs src dst =
     (case read_text fs src of
        Inl e \<Rightarrow> Inl e
      | Inr c \<Rightarrow> create_file fs (dst @ ''/'' @ src) c)"

text \<open>
  The members that the loop over \<open>os.walk(d)\<close> writes to the archive: every regular file
  below \<open>d\<close>, under its path relative to \<open>d\<close>.
\<close>

definition walk_members :: "filesystem \<Rightarrow> string \<Rightarrow> (string \<times> string) list" where
  "walk_members fs d =
     concat (map (\<lambda>(p, e). (case e of
                               File c \<Rightarrow> if is_under d p then [(drop (length d + 1) p, c)] else []
                             | Dir \<Rightarrow> [])) fs)"

subsection \<open>The packaging script: \<^verbatim>\<open>main\<close>\<close>

definition SCRIPT_FILE :: string where
  "SCRIPT_FILE = ''emission_atlas.py''"

definition OUTPUT_FOLDER :: string where
  "OUTPUT_FOLDER = ''emission_atlas''"

text \<open>
  The search for \<open>bl_info = {...}\<close> and its evaluation by \<open>ast.literal_eval\<close> are
  the parameter \<open>parse\<close>: \<open>None\<close> when the text has no such assignment or its braces do
  not hold a literal, otherwise the entries of the dict that are tuples of integers.
\<close>

type_synonym bl_info_parser = "string \<Rightarrow> (string \<times> int list) list option"

definition get_blender_version ::
  "bl_info_parser \<Rightarrow> filesystem \<Rightarrow> string \<Rightarrow> py_error + string option" where
  "get_blender_version parse fs file_path =
     (case read_text fs file_path of
        Inl e \<Rightarrow> Inl e
      | Inr content \<Rightarrow>
          (case parse content of
             None \<Rightarrow> Inr None
           | Some bl_info_dict \<Rightarrow>
               Inr (Some (join_with ''.''
                       (map str_int (case map_of bl_info_dict ''blender'' of
                                       None \<Rightarrow> [0, 0, 0]
                                     | Some t \<Rightarrow> t))))))"

definition get_version ::
  "bl_info_parser \<Rightarrow> filesystem \<Rightarrow> string \<Rightarrow> py_error + string option" where
  "get_version parse fs file_path =
     (case read_text fs file_path of
        Inl e \<Rightarrow> Inl e
      | Inr content \<Rightarrow>
          (case parse content of
             None \<Rightarrow> Inr None
           | Some bl_info_dict \<Rightarrow>
               Inr (Some (join_with ''.''
                       (map str_int (case map_of bl_info_dict ''version'' of
                                       None \<Rightarrow> [0, 0, 0]
                                     | Some t \<Rightarrow> t))))))"

definition increment_version :: "string option \<Rightarrow> py_error + string" where
  "increment_version version =
     (case version of
        None \<Rightarrow> Inr ''0.0.1''
      | Some v \<Rightarrow>
          (let parts = split_on (CHR ''.'') v
           in case py_int (last parts) of
                Inl e \<Rightarrow> Inl e
              | Inr n \<Rightarrow> Inr (join_with ''.'' (butlast parts @ [str_int (n + 1)]))))"

record arguments =
  as_zip :: bool
  target_blender :: "string option"
  version :: "string option"

text \<open>The body of \<open>for arg in sys.argv[1:]\<close>.\<close>

definition parse_arg :: "arguments \<Rightarrow> string \<Rightarrow> arguments" where
  "parse_arg a arg =
     (if arg = ''--as-zip'' then a\<lparr>as_zip := True\<rparr>
      else if starts_with ''--target-blender='' arg
      then a\<lparr>target_blender := Some (split_on (CHR ''='') arg ! 1)\<rparr>
      else if starts_with ''--version='' arg
      then a\<lparr>version := Some (split_on (CHR ''='') arg ! 1)\<rparr>
      else a)"

definition parse_args :: "string list \<Rightarrow> arguments" where
  "parse_args argv =
     foldl parse_arg \<lparr>as_zip = False, target_blender = None, version = None\<rparr> (drop 1 argv)"

definition zip_file_name_of :: "string \<Rightarrow> string \<Rightarrow> string" where
  "zip_file_name_of ver target = ''emission_atlas_'' @ ver @ ''_blender_'' @ target @ ''.zip''"

text \<open>The target version: from the command line, else from \<open>bl_info\<close>.\<close>

definition resolve_target ::
  "bl_info_parser \<Rightarrow> arguments \<Rightarrow> filesystem \<Rightarrow> py_error + string option" where
  "resolve_target parse a fs =
     (case target_blender a of
        Some t \<Rightarrow> Inr (Some t)
      | None \<Rightarrow> get_blender_version parse fs SCRIPT_FILE)"

text \<open>The addon version: from the command line, else the one of \<open>bl_info\<close> incremented.\<close>

definition resolve_version ::
  "bl_info_parser \<Rightarrow> arguments \<Rightarrow> filesystem \<Rightarrow> py_error + string" where
  "resolve_version parse a fs =
     (case version a of
        Some v \<Rightarrow> Inr v
      | None \<Rightarrow>
          (case get_version parse fs SCRIPT_FILE of
             Inl e \<Rightarrow> Inl e
           | Inr v \<Rightarrow> increment_version v))"

text \<open>The staging folder: removed when present, created, filled with the copies.\<close>

definition stage :: "filesystem \<Rightarrow> py_error + filesystem" where
  "stage fs =
     (case (if path_exists fs OUTPUT_FOLDER then rmtree fs OUTPUT_FOLDER else Inr fs) of
        Inl e \<Rightarrow> Inl e
      | Inr fs1 \<Rightarrow>
     (case mkdir fs1 OUTPUT_FOLDER of
        Inl e \<Rightarrow> Inl e
      | Inr fs2 \<Rightarrow>
     (case copy fs2 SCRIPT_FILE OUTPUT_FOLDER of
        Inl e \<Rightarrow> Inl e
      | Inr fs3 \<Rightarrow>
     (case (if path_exists fs3 ''LICENSE'' then copy fs3 ''LICENSE'' OUTPUT_FOLDER else Inr fs3) of
        Inl e \<Rightarrow> Inl e
      | Inr fs4 \<Rightarrow>
          (if path_exists fs4 ''README.md'' then copy fs4 ''README.md'' OUTPUT_FOLDER
           else Inr fs4)))))"

text \<open>
  \<open>zip_encode\<close> is the archive format: the content of the archive file as a function
  of its members. An undetermined target version ends \<open>main\<close> with a message and no
  build.
\<close>

definition main ::
  "bl_info_parser \<Rightarrow> ((string \<times> string) list \<Rightarrow> string) \<Rightarrow> string list \<Rightarrow> filesystem
     \<Rightarrow> py_error + filesystem" where
  "main parse zip_encode argv fs =
     (let a = parse_args argv
      in case resolve_target parse a fs of
           Inl e \<Rightarrow> Inl e
         | Inr None \<Rightarrow> Inr fs
         | Inr (Some target) \<Rightarrow>
             (case resolve_version parse a fs of
                Inl e \<Rightarrow> Inl e
              | Inr ver \<Rightarrow>
                  (case stage fs of
                     Inl e \<Rightarrow> Inl e
                   | Inr fs5 \<Rightarrow>
                       if as_zip a
                       then (case create_file fs5 (zip_file_name_of ver target)
                                    (zip_encode (walk_members fs5 OUTPUT_FOLDER)) of
                               Inl e \<Rightarrow> Inl e
                             | Inr fs6 \<Rightarrow> rmtree fs6 OUTPUT_FOLDER)
                       else Inr fs5)))"

subsection \<open>Consistency of \<^verbatim>\<open>created_material_sets\<close>\<close>

text \<open>
  Every list of materials stored under the name of an image has as many entries as the
  image has columns. The Unpack operator starts from the empty dict and keeps this.
\<close>

definition created_consistent :: "image list \<Rightarrow> (string \<times> string list) list \<Rightarrow> bool" where
  "created_consistent imgs created_material_sets =
     (\<forall>nm mats img. map_of created_material_sets nm = Some mats \<and> lookup_image imgs nm = Some img
        \<longrightarrow> int (length mats) = atlas_column_count img)"

subsection \<open>Example data\<close>

text \<open>A two-column atlas of two by one pixels, red and green, and a material that uses it.\<close>

definition small_atlas :: image where
  "small_atlas =
     \<lparr>img_name = ''Emission_Atlas'', img_width = 2, img_height = 1,
      img_pixels = [1, 0, 0, 1, 0, 1, 0, 1], atlas_columns = Some 2\<rparr>"

definition small_atlas_material :: material where
  "small_atlas_material =
     \<lparr>mat_name = ''AtlasMaterial'', use_nodes = True,
      nodes = [\<lparr>node_type = ''TEX_IMAGE'', color_default = (0, 0, 0, 1),
                 node_image = Some ''Emission_Atlas''\<rparr>,
               \<lparr>node_type = ''EMISSION'', color_default = (1, 1, 1, 1), node_image = None\<rparr>,
               \<lparr>node_type = ''OUTPUT_MATERIAL'', color_default = (0, 0, 0, 1),
                 node_image = None\<rparr>]\<rparr>"

text \<open>
  A mesh object with the atlas material and two faces, one with a UV right of the
  unit square and one with a UV left of it.
\<close>

definition cube :: object where
  "cube = \<lparr>obj_name = ''Cube'', obj_type = ''MESH'', obj_data = 0\<rparr>"

definition atlas_scene :: blend where
  "atlas_scene =
     \<lparr>data_materials = [small_atlas_material],
      data_images = [small_atlas],
      data_meshes = (\<lambda>_. None)(0 \<mapsto>
        \<lparr>mesh_materials = [Some ''AtlasMaterial''],
         faces = [\<lparr>material_index = 0, loops = [(7 / 2, 1 / 2), (7 / 2, 1 / 2), (7 / 2, 1 / 2)]\<rparr>,
                  \<lparr>material_index = 0, loops = [(- 1, 1 / 2), (- 1, 1 / 2), (- 1, 1 / 2)]\<rparr>]\<rparr>),
      selected_objects = [cube],
      ORIGINAL_MATERIALS = []\<rparr>"

text \<open>
  Two emission materials, red and green, of which only the red one is used: a mesh
  object \<open>Cube\<close> with one face, and a light, which is not a mesh.
\<close>

definition red_material :: material where
  "red_material =
     \<lparr>mat_name = ''Red'', use_nodes = True,
      nodes = [\<lparr>node_type = ''EMISSION'', color_default = (1, 0, 0, 1), node_image = None\<rparr>,
               \<lparr>node_type = ''OUTPUT_MATERIAL'', color_default = (0, 0, 0, 1),
                 node_image = None\<rparr>]\<rparr>"

definition unused_material :: material where
  "unused_material =
     \<lparr>mat_name = ''Unused'', use_nodes = True,
      nodes = [\<lparr>node_type = ''EMISSION'', color_default = (0, 1, 0, 1), node_image = None\<rparr>,
               \<lparr>node_type = ''OUTPUT_MATERIAL'', color_default = (0, 0, 0, 1),
                 node_image = None\<rparr>]\<rparr>"

definition red_mesh :: mesh where
  "red_mesh =
     \<lparr>mesh_materials = [Some ''Red''],
      faces = [\<lparr>material_index = 0, loops = [(0, 0), (1, 0), (0, 1)]\<rparr>]\<rparr>"

definition lamp :: object where
  "lamp = \<lparr>obj_name = ''Light'', obj_type = ''LIGHT'', obj_data = 1\<rparr>"

definition create_scene :: blend where
  "create_scene =
     \<lparr>data_materials = [red_material, unused_material],
      data_images = [],
      data_meshes = (\<lambda>_. None)(0 \<mapsto> red_mesh),
      selected_objects = [cube, lamp],
      ORIGINAL_MATERIALS = []\<rparr>"

text \<open>A linked duplicate of the cube: a second object with the same data.\<close>

definition cube_linked :: object where
  "cube_linked = \<lparr>obj_name = ''Cube.001'', obj_type = ''MESH'', obj_data = 0\<rparr>"

definition linked_scene :: blend where
  "linked_scene =
     \<lparr>data_materials = [red_material],
      data_images = [],
      data_meshes = (\<lambda>_. None)(0 \<mapsto> red_mesh),
      selected_objects = [cube, cube_linked],
      ORIGINAL_MATERIALS = []\<rparr>"

text \<open>Twenty-five white emission materials, as the dict of names and colours.\<close>

definition white_materials :: "(string \<times> color) list" where
  "white_materials = map (\<lambda>k. (''White_'' @ str_nat k, (1, 1, 1))) [0..<25]"

text \<open>
  The dict of the two colours of \<open>small_atlas\<close>, a dict with one grey material, and
  a blue material that bears the name the Unpack operator gives to column 0.
\<close>

definition two_colors :: "(string \<times> color) list" where
  "two_colors = [(''Red'', (1, 0, 0)), (''Green'', (0, 1, 0))]"

definition grey_colors :: "(string \<times> color) list" where
  "grey_colors = [(''Grey'', (1 / 2, 1 / 2, 1 / 2))]"


subsection \<open>The packaging script: a working directory fit for a build\<close>

text \<open>
  The paths are distinct, the addon script is a regular file, \<open>LICENSE\<close> and
  \<open>README.md\<close> are regular files when present, and the staging folder is a directory
  or absent (and then nothing lies below it).
\<close>

definition build_ready :: "filesystem \<Rightarrow> bool" where
  "build_ready fs =
     (distinct (map fst fs)
      \<and> (\<exists>c. map_of fs SCRIPT_FILE = Some (File c))
      \<and> map_of fs ''LICENSE'' \<noteq> Some Dir
      \<and> map_of fs ''README.md'' \<noteq> Some Dir
      \<and> (case map_of fs OUTPUT_FOLDER of
            None \<Rightarrow> list_all (\<lambda>(p, e). \<not> is_under OUTPUT_FOLDER p) fs
          | Some Dir \<Rightarrow> True
          | Some (File c) \<Rightarrow> False))"

text \<open>
  Example data: a script whose text has no \<open>bl_info\<close>, the \<open>bl_info\<close> of the addon, an
  archive format that lists the members, and a working directory with the script and a
  licence.
\<close>

definition no_bl_info :: bl_info_parser where
  "no_bl_info content = None"

definition atlas_bl_info :: bl_info_parser where
  "atlas_bl_info content = Some [(''blender'', [4, 1, 1]), (''version'', [1, 3])]"

definition listing_zip :: "(string \<times> string) list \<Rightarrow> string" where
  "listing_zip members = concat (map (\<lambda>(name, content). name @ '':'' @ content @ '';'') members)"

definition release_dir :: filesystem where
  "release_dir =
     [(''emission_atlas.py'', File ''bl_info''), (''LICENSE'', File ''MIT''),
      (''package_release.py'', File ''main()'')]"

section \<open>Verification\<close>

subsection \<open>The pixels written by \<^verbatim>\<open>create_texture_atlas\<close>\<close>

lemma foldE_append:
  "foldE f (xs @ ys) s = (case foldE f xs s of Inl e \<Rightarrow> Inl e | Inr s' \<Rightarrow> foldE f ys s')"
  by (induction xs arbitrary: s) (auto split: sum.splits)

lemma write_pixel_ok:
  assumes "p + 3 < length px"
  shows "\<exists>px'. write_pixel c p px = Inr px' \<and> length px' = length px \<and>
           (\<forall>j<length px. px' ! j = (if p \<le> j \<and> j < p + 4 then channel c (j - p) else px ! j))"
proof -
  obtain r g b where c: "c = (r, g, b)" by (cases c) auto
  have "write_pixel c p px = Inr (px[p := r, p + 1 := g, p + 2 := b, p + 3 := 1])"
    using assms by (simp add: write_pixel_def list_assign_def c)
  moreover have "\<forall>j<length px. (px[p := r, p + 1 := g, p + 2 := b, p + 3 := 1]) ! j
       = (if p \<le> j \<and> j < p + 4 then channel c (j - p) else px ! j)"
    using assms by (auto simp: c nth_list_update)
  ultimately show ?thesis by simp
qed

lemma pixel_number:
  assumes "X < (W::nat)"
  shows "(y * W + X) * 4 \<le> j \<and> j < (y * W + X) * 4 + 4 \<longleftrightarrow> (j div 4) mod W = X \<and> (j div 4) div W = y"
proof -
  have "(y * W + X) * 4 \<le> j \<and> j < (y * W + X) * 4 + 4 \<longleftrightarrow> j div 4 = y * W + X" by auto
  also have "\<dots> \<longleftrightarrow> (j div 4) mod W = X \<and> (j div 4) div W = y"
    using assms by (auto simp: div_add1_eq)
  finally show ?thesis .
qed

lemma fill_rows:
  assumes "x_start + x < W" and "length px = W * H * 4" and "m \<le> H"
  shows "\<exists>px'. foldE (\<lambda>y. write_pixel c (px_index W x_start x y)) [0..<m] px = Inr px' \<and>
           length px' = length px \<and>
           (\<forall>j<length px. px' ! j =
              (if (j div 4) mod W = x_start + x \<and> (j div 4) div W < m
               then channel c (j mod 4) else px ! j))"
  using assms(3)
proof (induction m)
  case 0
  then show ?case by simp
next
  case (Suc m)
  then obtain px1 where 1: "foldE (\<lambda>y. write_pixel c (px_index W x_start x y)) [0..<m] px = Inr px1"
    and l1: "length px1 = length px"
    and n1: "\<forall>j<length px. px1 ! j =
              (if (j div 4) mod W = x_start + x \<and> (j div 4) div W < m
               then channel c (j mod 4) else px ! j)" by auto
  let ?p = "px_index W x_start x m"
  have "m * W + (x_start + x) < H * W"
  proof -
    have "m * W + (x_start + x) < m * W + W" using assms(1) by simp
    also have "\<dots> = Suc m * W" by simp
    also have "\<dots> \<le> H * W" using Suc.prems by (intro mult_le_mono1)
    finally show ?thesis .
  qed
  then have bound: "?p + 3 < length px1"
    by (simp add: px_index_def l1 assms(2) mult.commute)
  from write_pixel_ok[OF bound, of c] obtain px2 where 2: "write_pixel c ?p px1 = Inr px2"
    and l2: "length px2 = length px1"
    and n2: "\<forall>j<length px1. px2 ! j = (if ?p \<le> j \<and> j < ?p + 4 then channel c (j - ?p) else px1 ! j)"
    by auto
  have pn: "\<And>j. ?p \<le> j \<and> j < ?p + 4 \<longleftrightarrow> (j div 4) mod W = x_start + x \<and> (j div 4) div W = m"
    unfolding px_index_def using pixel_number[OF assms(1)] by simp
  have sub: "\<And>j. ?p \<le> j \<Longrightarrow> j < ?p + 4 \<Longrightarrow> j - ?p = j mod 4"
    unfolding px_index_def by presburger
  have "foldE (\<lambda>y. write_pixel c (px_index W x_start x y)) [0..<Suc m] px = Inr px2"
    by (simp add: foldE_append 1 2)
  moreover have "length px2 = length px" by (simp add: l1 l2)
  moreover have "\<forall>j<length px. px2 ! j =
              (if (j div 4) mod W = x_start + x \<and> (j div 4) div W < Suc m
               then channel c (j mod 4) else px ! j)"
  proof (intro allI impI)
    fix j assume j: "j < length px"
    show "px2 ! j = (if (j div 4) mod W = x_start + x \<and> (j div 4) div W < Suc m
               then channel c (j mod 4) else px ! j)"
    proof (cases "?p \<le> j \<and> j < ?p + 4")
      case True
      then show ?thesis using n2 j l1 pn[of j] sub[of j] by simp
    next
      case False
      then have "\<not> ((j div 4) mod W = x_start + x \<and> (j div 4) div W = m)" using pn[of j] by simp
      then show ?thesis using n2 n1 j l1 False by (auto simp: less_Suc_eq)
    qed
  qed
  ultimately show ?case by blast
qed

lemma fill_cols:
  assumes "x_start + cw \<le> W" and "length px = W * H * 4" and "m \<le> cw"
  shows "\<exists>px'. foldE (\<lambda>x. foldE (\<lambda>y. write_pixel c (px_index W x_start x y)) [0..<H]) [0..<m] px = Inr px' \<and>
           length px' = length px \<and>
           (\<forall>j<length px. px' ! j =
              (if x_start \<le> (j div 4) mod W \<and> (j div 4) mod W < x_start + m
               then channel c (j mod 4) else px ! j))"
  using assms(3)
proof (induction m)
  case 0
  then show ?case by simp
next
  case (Suc m)
  let ?body = "\<lambda>x. foldE (\<lambda>y. write_pixel c (px_index W x_start x y)) [0..<H]"
  from Suc obtain px1 where 1: "foldE ?body [0..<m] px = Inr px1"
    and l1: "length px1 = length px"
    and n1: "\<forall>j<length px. px1 ! j =
              (if x_start \<le> (j div 4) mod W \<and> (j div 4) mod W < x_start + m
               then channel c (j mod 4) else px ! j)" by auto
  have xm: "x_start + m < W" using Suc.prems assms(1) by simp
  have len1: "length px1 = W * H * 4" using l1 assms(2) by simp
  from fill_rows[OF xm len1 order_refl, of c] obtain px2 where 2: "?body m px1 = Inr px2"
    and l2: "length px2 = length px1"
    and n2: "\<forall>j<length px1. px2 ! j =
              (if (j div 4) mod W = x_start + m \<and> (j div 4) div W < H
               then channel c (j mod 4) else px1 ! j)" by blast
  have row: "\<And>j. j < length px \<Longrightarrow> (j div 4) div W < H"
  proof -
    fix j assume "j < length px"
    then have "j div 4 < H * W" using assms(2) by (simp add: mult.commute)
    then show "(j div 4) div W < H" using xm by (simp add: less_mult_imp_div_less)
  qed
  have "foldE ?body [0..<Suc m] px = Inr px2"
    by (simp add: foldE_append 1 2)
  moreover have "length px2 = length px" by (simp add: l1 l2)
  moreover have "\<forall>j<length px. px2 ! j =
              (if x_start \<le> (j div 4) mod W \<and> (j div 4) mod W < x_start + Suc m
               then channel c (j mod 4) else px ! j)"
  proof (intro allI impI)
    fix j assume j: "j < length px"
    show "px2 ! j = (if x_start \<le> (j div 4) mod W \<and> (j div 4) mod W < x_start + Suc m
               then channel c (j mod 4) else px ! j)"
      using n2 n1 j l1 row[OF j] by auto
  qed
  ultimately show ?case by blast
qed

lemma fill_column_ok:
  assumes "x_start + cw \<le> W" and "length px = W * H * 4"
  shows "\<exists>px'. fill_column c W H cw x_start px = Inr px' \<and>
           length px' = length px \<and>
           (\<forall>j<length px. px' ! j =
              (if x_start \<le> (j div 4) mod W \<and> (j div 4) mod W < x_start + cw
               then channel c (j mod 4) else px ! j))"
  unfolding fill_column_def using fill_cols[OF assms order_refl] .

lemma column_of:
  assumes "m * cw \<le> X" and "X < m * cw + (cw::nat)"
  shows "X div cw = m"
proof -
  have "cw > 0" using assms by (cases cw) auto
  then show ?thesis using assms
    by (metis add.commute div_nat_eqI mult.commute mult_Suc_right)
qed

lemma fill_mats:
  assumes "distinct (map fst mc)" and "length mc * cw \<le> W" and "length px = W * H * 4"
    and "m \<le> length mc"
  shows "\<exists>px'. foldE (fill_material mc W H cw) (enumerate 0 (map fst (take m mc))) px = Inr px' \<and>
           length px' = length px \<and>
           (\<forall>j<length px. px' ! j =
              (if (j div 4) mod W < m * cw
               then channel (snd (mc ! (((j div 4) mod W) div cw))) (j mod 4) else px ! j))"
  using assms(4)
proof (induction m)
  case 0
  then show ?case by simp
next
  case (Suc m)
  then have m: "m < length mc" by simp
  from Suc obtain px1 where 1: "foldE (fill_material mc W H cw) (enumerate 0 (map fst (take m mc))) px = Inr px1"
    and l1: "length px1 = length px"
    and n1: "\<forall>j<length px. px1 ! j =
              (if (j div 4) mod W < m * cw
               then channel (snd (mc ! (((j div 4) mod W) div cw))) (j mod 4) else px ! j)" by auto
  have en: "enumerate 0 (map fst (take (Suc m) mc)) =
        enumerate 0 (map fst (take m mc)) @ [(m, fst (mc ! m))]"
    using m by (simp add: take_Suc_conv_app_nth enumerate_append_eq)
  have look: "map_of mc (fst (mc ! m)) = Some (snd (mc ! m))"
    using assms(1) m by (metis map_of_eq_Some_iff nth_mem prod.collapse)
  have "Suc m * cw \<le> length mc * cw" using m by (intro mult_le_mono1) simp
  then have fit: "m * cw + cw \<le> W" using assms(2) by simp
  have len1: "length px1 = W * H * 4" using l1 assms(3) by simp
  from fill_column_ok[OF fit len1, of "snd (mc ! m)"] obtain px2
    where 2: "fill_column (snd (mc ! m)) W H cw (m * cw) px1 = Inr px2"
    and l2: "length px2 = length px1"
    and n2: "\<forall>j<length px1. px2 ! j =
              (if m * cw \<le> (j div 4) mod W \<and> (j div 4) mod W < m * cw + cw
               then channel (snd (mc ! m)) (j mod 4) else px1 ! j)" by blast
  have last: "fill_material mc W H cw (m, fst (mc ! m)) px1 = Inr px2"
    by (simp add: fill_material_def look 2)
  have "foldE (fill_material mc W H cw) (enumerate 0 (map fst (take (Suc m) mc))) px = Inr px2"
    by (simp add: en foldE_append 1 last)
  moreover have "length px2 = length px" by (simp add: l1 l2)
  moreover have "\<forall>j<length px. px2 ! j =
              (if (j div 4) mod W < Suc m * cw
               then channel (snd (mc ! (((j div 4) mod W) div cw))) (j mod 4) else px ! j)"
  proof (intro allI impI)
    fix j assume j: "j < length px"
    let ?X = "(j div 4) mod W"
    show "px2 ! j = (if ?X < Suc m * cw
               then channel (snd (mc ! (?X div cw))) (j mod 4) else px ! j)"
    proof (cases "m * cw \<le> ?X \<and> ?X < m * cw + cw")
      case True
      then have "?X div cw = m" using column_of by blast
      then show ?thesis using True n2 j l1 by simp
    next
      case False
      then have "?X < Suc m * cw \<longleftrightarrow> ?X < m * cw" by auto
      then show ?thesis using False n2 n1 j l1 by simp
    qed
  qed
  ultimately show ?case by blast
qed

lemma fill_atlas_ok:
  assumes "distinct (map fst mc)" and "length mc * cw \<le> W" and "length px = W * H * 4"
  shows "\<exists>px'. fill_atlas mc W H cw px = Inr px' \<and>
           length px' = length px \<and>
           (\<forall>j<length px. px' ! j =
              (if (j div 4) mod W < length mc * cw
               then channel (snd (mc ! (((j div 4) mod W) div cw))) (j mod 4) else px ! j))"
  using fill_mats[OF assms order_refl] by (simp add: fill_atlas_def fill_material_def)

lemma store_byte_0: "store_byte 0 = 0"
  by (simp add: store_byte_def)

lemma store_byte_1: "store_byte 1 = 1"
  by (simp add: store_byte_def)

lemma create_texture_atlas_pixels:
  assumes "mc \<noteq> []" and "distinct (map fst mc)"
  shows "\<exists>img. create_texture_atlas nm mc W H = Inr (Some img) \<and>
           img_name img = nm \<and> img_width img = W \<and> img_height img = H \<and>
           atlas_columns img = Some (int (length mc)) \<and>
           length (img_pixels img) = W * H * 4 \<and>
           (\<forall>j<W * H * 4. img_pixels img ! j =
              (if (j div 4) mod W < length mc * (W div length mc)
               then store_byte
                      (channel (snd (mc ! (((j div 4) mod W) div (W div length mc)))) (j mod 4))
               else 0))"
proof -
  have fit: "length mc * (W div length mc) \<le> W" by simp
  have len: "length (replicate (W * H * 4) (0::real)) = W * H * 4" by simp
  from fill_atlas_ok[OF assms(2) fit len] obtain px' where
    1: "fill_atlas mc W H (W div length mc) (replicate (W * H * 4) 0) = Inr px'"
    and 2: "length px' = W * H * 4"
    and 3: "\<forall>j<W * H * 4. px' ! j =
              (if (j div 4) mod W < length mc * (W div length mc)
               then channel (snd (mc ! (((j div 4) mod W) div (W div length mc)))) (j mod 4)
               else replicate (W * H * 4) 0 ! j)" by auto
  have 4: "\<forall>j<W * H * 4. map store_byte px' ! j =
              (if (j div 4) mod W < length mc * (W div length mc)
               then store_byte
                      (channel (snd (mc ! (((j div 4) mod W) div (W div length mc)))) (j mod 4))
               else 0)"
    using 2 3 by (simp add: store_byte_0)
  show ?thesis using assms(1) 1 2 4 by (simp add: create_texture_atlas_def Let_def)
qed

lemma atlas_pixel_in_column:
  assumes n: "i < n" and lo: "i * (W div n) \<le> x" and hi: "x < (i + 1) * (W div n)"
    and y: "y < H" and k: "k < 4"
  shows "px_index W 0 x y + k < W * H * 4"
    and "((px_index W 0 x y + k) div 4) mod W = x"
    and "x div (W div n) = i"
    and "x < n * (W div n)"
    and "(px_index W 0 x y + k) mod 4 = k"
proof -
  have "(i + 1) * (W div n) \<le> n * (W div n)" using n by (intro mult_le_mono1) simp
  then show xn: "x < n * (W div n)" using hi by simp
  have "n * (W div n) \<le> W" by simp
  with xn have xW: "x < W" by (rule less_le_trans)
  have "y * W + x < y * W + W" using xW by simp
  also have "\<dots> = Suc y * W" by simp
  also have "\<dots> \<le> H * W" using y by (intro mult_le_mono1) simp
  finally have "y * W + x < H * W" .
  then show "px_index W 0 x y + k < W * H * 4" using k by (simp add: px_index_def mult.commute)
  have "(px_index W 0 x y + k) div 4 = y * W + x" using k by (simp add: px_index_def)
  then show "((px_index W 0 x y + k) div 4) mod W = x" using xW by simp
  show "x div (W div n) = i" using lo hi column_of[of i "W div n" x] by simp
  have "(px_index W 0 x y + k) mod 4 = k mod 4" unfolding px_index_def by presburger
  then show "(px_index W 0 x y + k) mod 4 = k" using k by simp
qed

text \<open>
  Claim C9. In \<open>create_texture_atlas\<close>, for a non-empty dict of materials, every index
  of the pixel buffer that the loops write is in bounds: for every column \<open>i\<close>, every
  \<open>x\<close> below the column width and every row \<open>y\<close>, \<open>px_index + 3\<close> is below
  \<open>atlas_width * atlas_height * 4\<close>; so no store raises and the function returns the
  image.
\<close>

theorem create_texture_atlas_in_bounds:
  assumes "material_colors \<noteq> []" and "distinct (map fst material_colors)"
  shows "(\<forall>i<length material_colors. \<forall>x<atlas_width div length material_colors. \<forall>y<atlas_height.
            px_index atlas_width (i * (atlas_width div length material_colors)) x y + 3
              < atlas_width * atlas_height * 4)
         \<and> (\<exists>img. create_texture_atlas nm material_colors atlas_width atlas_height = Inr (Some img))"
proof (intro conjI allI impI)
  fix i x y
  let ?n = "length material_colors" and ?cw = "atlas_width div length material_colors"
  assume i: "i < ?n" and x: "x < ?cw" and y: "y < atlas_height"
  have "px_index atlas_width 0 (i * ?cw + x) y + 3 < atlas_width * atlas_height * 4"
    using atlas_pixel_in_column(1)[of i ?n atlas_width "i * ?cw + x" y atlas_height 3] i x y by simp
  then show "px_index atlas_width (i * ?cw) x y + 3 < atlas_width * atlas_height * 4"
    by (simp add: px_index_def)
next
  show "\<exists>img. create_texture_atlas nm material_colors atlas_width atlas_height = Inr (Some img)"
    using create_texture_atlas_pixels[OF assms] by blast
qed

theorem create_texture_atlas_in_bounds_witness:
  "[(''Red'', (1, 0, 0)), (''Green'', (0, 1, 0))] \<noteq> ([] :: (string \<times> color) list)
   \<and> distinct (map fst [(''Red'', (1::real, 0::real, 0::real)), (''Green'', (0, 1, 0))])
   \<and> px_index 5 (1 * (5 div 2)) 1 2 + 3 < 5 * 3 * 4
   \<and> (\<exists>img. create_texture_atlas ''Emission_Atlas''
                [(''Red'', (1, 0, 0)), (''Green'', (0, 1, 0))] 5 3 = Inr (Some img))"
proof -
  let ?mc = "[(''Red'', (1::real, 0::real, 0::real)), (''Green'', (0, 1, 0))]"
  have ne: "?mc \<noteq> []" and d: "distinct (map fst ?mc)" by simp_all
  note inst = create_texture_atlas_in_bounds [OF ne d, of 5 3 "''Emission_Atlas''"]
  have "px_index 5 (1 * (5 div 2)) 1 2 + 3 < 5 * 3 * 4"
    using inst [THEN conjunct1, rule_format, of 1 1 2] by (simp add: numeral_2_eq_2 [symmetric])
  then show ?thesis using ne d inst [THEN conjunct2] by simp
qed

text \<open>
  Claim C4, as amended. The atlas of \<open>n \<ge> 1\<close> materials is a single row of columns:
  for every material index \<open>i\<close>, every pixel with \<open>x\<close> in
  \<open>[i * (atlas_width // n), (i + 1) * (atlas_width // n))\<close> and any row \<open>y\<close> holds
  the RGB stored under the \<open>i\<close>-th key as the 8-bit image keeps it (each component
  clamped to \<open>[0, 1]\<close> and rounded to the nearest \<open>k / 255\<close>) with alpha 1, and the
  image records \<open>n\<close> as \<open>"atlas_columns"\<close>.
\<close>

theorem create_texture_atlas_layout:
  assumes "material_colors \<noteq> []" and "distinct (map fst material_colors)"
    and "i < length material_colors"
    and "i * (atlas_width div length material_colors) \<le> x"
    and "x < (i + 1) * (atlas_width div length material_colors)"
    and "y < atlas_height"
  shows "\<exists>img r g b.
           create_texture_atlas nm material_colors atlas_width atlas_height = Inr (Some img)
           \<and> atlas_columns img = Some (int (length material_colors))
           \<and> map_of material_colors (map fst material_colors ! i) = Some (r, g, b)
           \<and> px_index atlas_width 0 x y + 3 < length (img_pixels img)
           \<and> img_pixels img ! (px_index atlas_width 0 x y + 0) = store_byte r
           \<and> img_pixels img ! (px_index atlas_width 0 x y + 1) = store_byte g
           \<and> img_pixels img ! (px_index atlas_width 0 x y + 2) = store_byte b
           \<and> img_pixels img ! (px_index atlas_width 0 x y + 3) = 1"
proof -
  let ?n = "length material_colors" and ?W = atlas_width and ?H = atlas_height
  obtain r g b where c: "snd (material_colors ! i) = (r, g, b)"
    by (cases "snd (material_colors ! i)") auto
  have look: "map_of material_colors (map fst material_colors ! i) = Some (r, g, b)"
    using assms(2,3) c by (metis length_map map_of_eq_Some_iff nth_map nth_mem prod.collapse)
  from create_texture_atlas_pixels[OF assms(1,2), of nm ?W ?H] obtain img where
    1: "create_texture_atlas nm material_colors ?W ?H = Inr (Some img)"
    and 2: "atlas_columns img = Some (int ?n)"
    and 3: "length (img_pixels img) = ?W * ?H * 4"
    and 4: "\<forall>j<?W * ?H * 4. img_pixels img ! j =
              (if (j div 4) mod ?W < ?n * (?W div ?n)
               then store_byte
                      (channel (snd (material_colors ! (((j div 4) mod ?W) div (?W div ?n))))
                         (j mod 4))
               else 0)" by blast
  note col = atlas_pixel_in_column[OF assms(3,4,5,6)]
  have px: "\<And>k. k < 4 \<Longrightarrow>
              img_pixels img ! (px_index ?W 0 x y + k) = store_byte (channel (r, g, b) k)"
    using 4 col c by simp
  have "px_index ?W 0 x y + 3 < length (img_pixels img)" using col(1)[of 3] 3 by simp
  moreover have "img_pixels img ! (px_index ?W 0 x y + 0) = store_byte r" using px[of 0] by simp
  moreover have "img_pixels img ! (px_index ?W 0 x y + 1) = store_byte g" using px[of 1] by simp
  moreover have "img_pixels img ! (px_index ?W 0 x y + 2) = store_byte b" using px[of 2] by simp
  moreover have "img_pixels img ! (px_index ?W 0 x y + 3) = 1"
    using px[of 3] by (simp add: store_byte_1)
  ultimately show ?thesis using 1 2 look by blast
qed

theorem create_texture_atlas_layout_witness:
  "[(''Red'', (1, 0, 0)), (''Grey'', (1 / 2, 1 / 2, 1 / 2))] \<noteq> ([] :: (string \<times> color) list)
   \<and> distinct (map fst [(''Red'', (1::real, 0::real, 0::real)), (''Grey'', (1 / 2, 1 / 2, 1 / 2))])
   \<and> (1::nat) < length [(''Red'', (1::real, 0::real, 0::real)), (''Grey'', (1 / 2, 1 / 2, 1 / 2))]
   \<and> (\<exists>img.
           create_texture_atlas ''Emission_Atlas''
               [(''Red'', (1, 0, 0)), (''Grey'', (1 / 2, 1 / 2, 1 / 2))] 5 3
             = Inr (Some img)
           \<and> atlas_columns img = Some 2
           \<and> px_index 5 0 3 2 + 3 < length (img_pixels img)
           \<and> img_pixels img ! (px_index 5 0 3 2 + 0) = 128 / 255
           \<and> img_pixels img ! (px_index 5 0 3 2 + 1) = 128 / 255
           \<and> img_pixels img ! (px_index 5 0 3 2 + 2) = 128 / 255
           \<and> img_pixels img ! (px_index 5 0 3 2 + 3) = 1)"
proof -
  let ?mc = "[(''Red'', (1::real, 0::real, 0::real)), (''Grey'', (1 / 2, 1 / 2, 1 / 2))]"
  have h: "?mc \<noteq> []" "distinct (map fst ?mc)" "1 < length ?mc"
    "1 * (5 div length ?mc) \<le> (3::nat)" "(3::nat) < (1 + 1) * (5 div length ?mc)" "(2::nat) < 3"
    by (simp_all add: numeral_2_eq_2 [symmetric])
  have half: "store_byte (1 / 2) = 128 / 255" by (simp add: store_byte_def)
  from create_texture_atlas_layout [OF h, of "''Emission_Atlas''"]
  obtain img r g b where
    1: "create_texture_atlas ''Emission_Atlas'' ?mc 5 3 = Inr (Some img)"
    and 2: "atlas_columns img = Some (int (length ?mc))"
    and 3: "map_of ?mc (map fst ?mc ! 1) = Some (r, g, b)"
    and 4: "px_index 5 0 3 2 + 3 < length (img_pixels img)"
    and 5: "img_pixels img ! (px_index 5 0 3 2 + 0) = store_byte r"
      "img_pixels img ! (px_index 5 0 3 2 + 1) = store_byte g"
      "img_pixels img ! (px_index 5 0 3 2 + 2) = store_byte b"
      "img_pixels img ! (px_index 5 0 3 2 + 3) = 1"
    by blast
  from 3 have rgb: "r = 1 / 2" "g = 1 / 2" "b = 1 / 2" by simp_all
  have "atlas_columns img = Some 2" using 2 by simp
  then show ?thesis using h(1,2,3) 1 4 5 unfolding rgb half by blast
qed

lemmas atlas_eval =
  create_texture_atlas_def fill_atlas_def fill_material_def fill_column_def write_pixel_def
  list_assign_def px_index_def store_byte_def two_colors_def grey_colors_def Let_def
  enumerate_eq_zip eval_nat_numeral

text \<open>
  Claim C4 as stated fails for a colour that is not a multiple of \<open>1 / 255\<close>: the atlas
  of one material of grey \<open>1/2\<close> holds \<open>128/255\<close> in its pixel, not \<open>1/2\<close>.
\<close>

theorem create_texture_atlas_rounds_colors:
  "create_texture_atlas ''Emission_Atlas'' grey_colors 1 1
     = Inr (Some \<lparr>img_name = ''Emission_Atlas'', img_width = 1, img_height = 1,
                  img_pixels = [128 / 255, 128 / 255, 128 / 255, 1], atlas_columns = Some 1\<rparr>)
   \<and> map_of grey_colors ''Grey'' = Some (1 / 2, 1 / 2, 1 / 2)
   \<and> (128 / 255 :: real) \<noteq> 1 / 2"
proof -
  have "create_texture_atlas ''Emission_Atlas'' grey_colors 1 1
     = Inr (Some \<lparr>img_name = ''Emission_Atlas'', img_width = 1, img_height = 1,
                  img_pixels = [128 / 255, 128 / 255, 128 / 255, 1], atlas_columns = Some 1\<rparr>)"
    by (simp add: atlas_eval)
  moreover have "map_of grey_colors ''Grey'' = Some (1 / 2, 1 / 2, 1 / 2)"
    by (simp add: grey_colors_def)
  moreover have "(128 / 255 :: real) \<noteq> 1 / 2" by simp
  ultimately show ?thesis by blast
qed

subsection \<open>UV remapping and the column of a UV\<close>


lemma col_index_of_range:
  assumes "col_index_of W columns u = Inr c" and "1 \<le> columns"
  shows "0 \<le> c \<and> c < columns"
  using assms by (auto simp: col_index_of_def Let_def split: if_splits)

lemma col_index_of_total:
  assumes "0 < W" and "1 \<le> columns"
  shows "\<exists>c. col_index_of W columns u = Inr c"
  using assms by (simp add: col_index_of_def Let_def)


lemma mapE_nth:
  "mapE f xs = Inr ys \<Longrightarrow> length ys = length xs \<and> (\<forall>k<length xs. f (xs ! k) = Inr (ys ! k))"
proof (induction xs arbitrary: ys)
  case Nil
  then show ?case by simp
next
  case (Cons x xs)
  from Cons.prems obtain y ys' where y: "f x = Inr y" and ys': "mapE f xs = Inr ys'"
    and ys: "ys = y # ys'"
    by (auto split: sum.splits)
  from Cons.IH[OF ys'] have "length ys' = length xs" and "\<forall>k<length xs. f (xs ! k) = Inr (ys' ! k)"
    by auto
  then show ?case using y ys by (auto simp: nth_Cons split: nat.splits)
qed



lemma first_some_map:
  "first_some (map g xs) = Some y \<Longrightarrow> \<exists>x\<in>set xs. g x = Some y"
proof (induction xs)
  case Nil
  then show ?case by simp
next
  case (Cons x xs)
  then show ?case by (cases "g x") auto
qed

lemma lookup_image_name:
  "lookup_image imgs nm = Some im \<Longrightarrow> img_name im = nm"
  by (auto simp: lookup_image_def find_Some_iff)

lemma node_atlas_image_lookup:
  "node_atlas_image imgs nd = Some im \<Longrightarrow> lookup_image imgs (img_name im) = Some im"
  by (auto simp: node_atlas_image_def lookup_image_name split: if_splits option.splits)

lemma find_atlas_image_lookup:
  assumes "find_atlas_image st slots = Some img"
  shows "lookup_image (data_images st) (img_name img) = Some img"
proof -
  from assms obtain slot where "slot_atlas_image st slot = Some img"
    unfolding find_atlas_image_def by (blast dest: first_some_map)
  then obtain mat :: material where "first_some (map (node_atlas_image (data_images st)) (nodes mat)) = Some img"
    by (auto simp: slot_atlas_image_def split: option.splits if_splits)
  then obtain nd :: node where "node_atlas_image (data_images st) nd = Some img"
    by (blast dest: first_some_map)
  then show ?thesis by (rule node_atlas_image_lookup)
qed

lemma atlas_column_count_pos: "1 \<le> atlas_column_count img"
  by (simp add: atlas_column_count_def Let_def)

lemma unpack_loop_length:
  "foldE (unpack_material px W H cw) is (new_mats, mats) = Inr (new_mats', mats')
   \<Longrightarrow> length new_mats' = length new_mats + length is"
proof (induction "is" arbitrary: new_mats mats)
  case Nil
  then show ?case by simp
next
  case (Cons i "is")
  from Cons.prems obtain nm1 mats1 where
    step: "unpack_material px W H cw i (new_mats, mats) = Inr (nm1, mats1)"
    and rest: "foldE (unpack_material px W H cw) is (nm1, mats1) = Inr (new_mats', mats')"
    by (auto split: sum.splits)
  from step have "length nm1 = length new_mats + 1"
    by (auto simp: unpack_material_def Let_def split: sum.splits if_splits)
  with Cons.IH[OF rest] show ?case by simp
qed

lemma reclassify_face_index:
  assumes "reclassify_face W cols f = Inr f'" and "loops f \<noteq> []" and "1 \<le> cols"
  shows "int (material_index f') < cols"
proof -
  from assms(1,2) obtain c where c: "col_index_of W cols (fst (loops f ! 0)) = Inr c"
    and f': "f' = f\<lparr>material_index := nat c\<rparr>"
    by (auto simp: reclassify_face_def split: sum.splits)
  from col_index_of_range[OF c assms(3)] show ?thesis using f' by simp
qed

lemma unpack_created_step:
  assumes cons: "created_consistent (data_images st) created"
    and look: "lookup_image (data_images st) (img_name img) = Some img"
    and step: "(if img_name img \<notin> set (map fst created)
               then (case foldE (unpack_material px W H cw) [0..<nat (atlas_column_count img)]
                            ([], data_materials st) of
                       Inl e \<Rightarrow> Inl e
                     | Inr (new_mats, mats) \<Rightarrow>
                         Inr (AList.update (img_name img) new_mats created,
                              st\<lparr>data_materials := mats\<rparr>))
               else Inr (created, st)) = Inr (created1, st1)"
  shows "created_consistent (data_images st1) created1"
    and "\<exists>new_materials. map_of created1 (img_name img) = Some new_materials
           \<and> int (length new_materials) = atlas_column_count img"
    and "data_meshes st1 = data_meshes st"
proof -
  let ?n = "atlas_column_count img"
  have pos: "1 \<le> ?n" by (rule atlas_column_count_pos)
  have "created_consistent (data_images st1) created1
    \<and> (\<exists>new_materials. map_of created1 (img_name img) = Some new_materials
           \<and> int (length new_materials) = ?n)
    \<and> data_meshes st1 = data_meshes st"
  proof (cases "img_name img \<in> set (map fst created)")
    case True
    with step have eq: "created1 = created" "st1 = st" by simp_all
    from True obtain ms where ms: "map_of created (img_name img) = Some ms"
      by (metis map_of_eq_None_iff not_Some_eq set_map)
    with cons look have "int (length ms) = ?n" unfolding created_consistent_def by blast
    then show ?thesis using eq cons ms by simp
  next
    case False
    with step obtain new_mats mats where
      loop: "foldE (unpack_material px W H cw) [0..<nat ?n] ([], data_materials st)
               = Inr (new_mats, mats)"
      and c1: "created1 = AList.update (img_name img) new_mats created"
      and s1: "st1 = st\<lparr>data_materials := mats\<rparr>"
      by (auto split: sum.splits)
    from unpack_loop_length[OF loop] have len: "int (length new_mats) = ?n" using pos by simp
    have m: "map_of created1 = (map_of created)(img_name img \<mapsto> new_mats)"
      unfolding c1 by (rule update_conv')
    have "created_consistent (data_images st1) created1"
      unfolding created_consistent_def
    proof (intro allI impI)
      fix nm ms im
      assume a: "map_of created1 nm = Some ms \<and> lookup_image (data_images st1) nm = Some im"
      show "int (length ms) = atlas_column_count im"
      proof (cases "nm = img_name img")
        case True
        with a m look s1 have "ms = new_mats" "im = img" by simp_all
        then show ?thesis using len by simp
      next
        case False
        with a m s1 have "map_of created nm = Some ms \<and> lookup_image (data_images st) nm = Some im"
          by simp
        with cons show ?thesis unfolding created_consistent_def by blast
      qed
    qed
    then show ?thesis using m len s1 by simp
  qed
  then show "created_consistent (data_images st1) created1"
    and "\<exists>new_materials. map_of created1 (img_name img) = Some new_materials
           \<and> int (length new_materials) = atlas_column_count img"
    and "data_meshes st1 = data_meshes st" by simp_all
qed

text \<open>
  Claim C10. The Unpack operator never gives a face a material index outside the slots
  it created: when an object with an atlas image of \<open>n\<close> columns has been processed,
  its data has exactly \<open>n\<close> slots and every face with a loop has an index below
  \<open>n\<close>; for every UV, inside the unit square or not, the column computed is in
  \<open>[0, n)\<close>.
\<close>

theorem unpack_object_index_in_slots:
  assumes cons: "created_consistent (data_images st) created_material_sets"
    and mesh: "obj_type obj = ''MESH''" "data_meshes st (obj_data obj) = Some me"
    and img: "find_atlas_image st (mesh_materials me) = Some atlas_image"
    and run: "unpack_object obj (created_material_sets, st) = Inr (created', st')"
  shows "\<exists>me'. data_meshes st' (obj_data obj) = Some me'
           \<and> int (length (mesh_materials me')) = atlas_column_count atlas_image
           \<and> length (faces me') = length (faces me)
           \<and> (\<forall>k<length (faces me). loops (faces me ! k) \<noteq> [] \<longrightarrow>
                  material_index (faces me' ! k) < length (mesh_materials me'))
           \<and> (\<forall>u c. col_index_of (img_width atlas_image) (atlas_column_count atlas_image) u = Inr c
                  \<longrightarrow> 0 \<le> c \<and> c < atlas_column_count atlas_image)
           \<and> created_consistent (data_images st') created'"
proof -
  let ?n = "atlas_column_count atlas_image" and ?W = "img_width atlas_image"
  have pos: "1 \<le> ?n" by (rule atlas_column_count_pos)
  have look: "lookup_image (data_images st) (img_name atlas_image) = Some atlas_image"
    using img by (rule find_atlas_image_lookup)
  from run mesh img obtain created1 st1 new_materials fs where
    step: "(if img_name atlas_image \<notin> set (map fst created_material_sets)
            then (case foldE (unpack_material (img_pixels atlas_image) ?W (img_height atlas_image)
                                (?W div nat ?n)) [0..<nat ?n] ([], data_materials st) of
                    Inl e \<Rightarrow> Inl e
                  | Inr (new_mats, mats) \<Rightarrow>
                      Inr (AList.update (img_name atlas_image) new_mats created_material_sets,
                           st\<lparr>data_materials := mats\<rparr>))
            else Inr (created_material_sets, st)) = Inr (created1, st1)"
    and nm: "map_of created1 (img_name atlas_image) = Some new_materials"
    and fs: "mapE (reclassify_face ?W ?n) (faces me) = Inr fs"
    and c': "created' = created1"
    and s': "st' = st1\<lparr>data_meshes := (data_meshes st1)
                 (obj_data obj \<mapsto> me\<lparr>mesh_materials := map Some new_materials, faces := fs\<rparr>)\<rparr>"
    unfolding unpack_object_def Let_def
    by (simp split: sum.splits option.splits prod.splits)
  note st1 = unpack_created_step[OF cons look step]
  from st1(2) nm have len: "int (length new_materials) = ?n" by simp
  let ?me' = "me\<lparr>mesh_materials := map Some new_materials, faces := fs\<rparr>"
  from mapE_nth[OF fs] have lfs: "length fs = length (faces me)"
    and each: "\<forall>k<length (faces me). reclassify_face ?W ?n (faces me ! k) = Inr (fs ! k)"
    by auto
  have idx: "\<forall>k<length (faces me). loops (faces me ! k) \<noteq> [] \<longrightarrow>
                  material_index (faces ?me' ! k) < length (mesh_materials ?me')"
  proof (intro allI impI)
    fix k assume k: "k < length (faces me)" and l: "loops (faces me ! k) \<noteq> []"
    from each k have "reclassify_face ?W ?n (faces me ! k) = Inr (fs ! k)" by simp
    from reclassify_face_index[OF this l pos] len
    show "material_index (faces ?me' ! k) < length (mesh_materials ?me')" by simp
  qed
  have col: "\<forall>u c. col_index_of ?W ?n u = Inr c \<longrightarrow> 0 \<le> c \<and> c < ?n"
    using col_index_of_range pos by blast
  have "data_meshes st' (obj_data obj) = Some ?me'" using s' by simp
  moreover have "int (length (mesh_materials ?me')) = ?n" using len by simp
  moreover have "length (faces ?me') = length (faces me)" using lfs by simp
  moreover have "created_consistent (data_images st') created'" using st1(1) c' s' by simp
  ultimately show ?thesis using idx col by blast
qed

lemmas unpack_eval =
  unpack_object_def find_atlas_image_def slot_atlas_image_def lookup_material_def
  node_atlas_image_def lookup_image_def atlas_column_count_def unpack_material_def
  sample_center_def center_x_of_def list_item_def create_single_color_emission_material_def
  unique_name_def unpacked_name_def str_nat.simps digit_char_def reclassify_face_def
  col_index_of_def
  atlas_scene_def small_atlas_def small_atlas_material_def cube_def Let_def upt_conv_Cons

theorem unpack_object_index_in_slots_witness:
  "created_consistent (data_images atlas_scene) []
   \<and> (\<exists>created' st' me'.
         unpack_object cube ([], atlas_scene) = Inr (created', st')
         \<and> data_meshes st' (obj_data cube) = Some me'
         \<and> int (length (mesh_materials me')) = 2
         \<and> material_index (faces me' ! 0) < length (mesh_materials me')
         \<and> material_index (faces me' ! 1) < length (mesh_materials me'))"
proof -
  let ?me = "\<lparr>mesh_materials = [Some ''AtlasMaterial''],
         faces = [\<lparr>material_index = 0, loops = [(7 / 2, 1 / 2), (7 / 2, 1 / 2), (7 / 2, 1 / 2 :: real)]\<rparr>,
                  \<lparr>material_index = 0, loops = [(- 1, 1 / 2), (- 1, 1 / 2), (- 1, 1 / 2)]\<rparr>]\<rparr>"
  have cons: "created_consistent (data_images atlas_scene) []"
    by (simp add: created_consistent_def)
  have m1: "obj_type cube = ''MESH''" by (simp add: cube_def)
  have m2: "data_meshes atlas_scene (obj_data cube) = Some ?me"
    by (simp add: cube_def atlas_scene_def)
  have img: "find_atlas_image atlas_scene (mesh_materials ?me) = Some small_atlas"
    by (simp add: unpack_eval)
  have "\<exists>r. unpack_object cube ([], atlas_scene) = Inr r"
    by (simp add: unpack_eval)
  then obtain created' st' where run: "unpack_object cube ([], atlas_scene) = Inr (created', st')"
    by auto
  from unpack_object_index_in_slots[OF cons m1 m2 img run] obtain me' where
    1: "data_meshes st' (obj_data cube) = Some me'"
    and 2: "int (length (mesh_materials me')) = atlas_column_count small_atlas"
    and 3: "\<forall>k<length (faces ?me). loops (faces ?me ! k) \<noteq> [] \<longrightarrow>
                  material_index (faces me' ! k) < length (mesh_materials me')"
    by blast
  have n: "atlas_column_count small_atlas = 2"
    by (simp add: atlas_column_count_def small_atlas_def)
  from 3 have "material_index (faces me' ! 0) < length (mesh_materials me')"
    and "material_index (faces me' ! 1) < length (mesh_materials me')" by simp_all
  with cons run 1 2 n show ?thesis by auto
qed

subsection \<open>Decimal strings and fresh names\<close>

lemma digit_val_digit_char:
  assumes "d < 10"
  shows "digit_val (digit_char d) = Some d"
proof -
  from assms have "d \<in> {0, 1, 2, 3, 4, 5, 6, 7, 8, 9}" by auto
  then show ?thesis
    by (auto simp: digit_val_def digit_char_def upt_conv_Cons)
qed

lemma digits_val_snoc:
  "digits_val acc (s @ [c]) =
     (case digits_val acc s of
        None \<Rightarrow> None
      | Some v \<Rightarrow> (case digit_val c of None \<Rightarrow> None | Some d \<Rightarrow> Some (10 * v + d)))"
  by (induction s arbitrary: acc) (auto split: option.splits)

lemma digits_val_str_nat: "digits_val 0 (str_nat n) = Some n"
proof (induction n rule: str_nat.induct)
  case (1 n)
  show ?case
  proof (cases "n < 10")
    case True
    then show ?thesis by (simp add: str_nat.simps[of n] digit_val_digit_char)
  next
    case False
    with 1 have "digits_val 0 (str_nat (n div 10)) = Some (n div 10)" by simp
    then show ?thesis
      using False by (simp add: str_nat.simps[of n] digits_val_snoc digit_val_digit_char)
  qed
qed

lemma str_nat_inj: "str_nat m = str_nat n \<Longrightarrow> m = n"
  by (metis digits_val_str_nat option.inject)

lemma digits_val_zeros: "digits_val 0 (replicate z (CHR ''0'') @ s) = digits_val 0 s"
proof (induction z)
  case 0
  then show ?case by simp
next
  case (Suc z)
  have "digit_val (CHR ''0'') = Some 0"
    using digit_val_digit_char[of 0] by (simp add: digit_char_def)
  then show ?case using Suc by simp
qed

lemma pad3_inj: "pad3 j = pad3 k \<Longrightarrow> j = k"
proof -
  assume "pad3 j = pad3 k"
  then have "digits_val 0 (pad3 j) = digits_val 0 (pad3 k)" by simp
  then show "j = k" by (simp add: pad3_def Let_def digits_val_zeros digits_val_str_nat)
qed

lemma unique_name_fresh: "unique_name base names \<notin> set names"
proof (cases "base \<in> set names")
  case False
  then show ?thesis by (simp add: unique_name_def)
next
  case True
  let ?cands = "map (\<lambda>k. base @ ''.'' @ pad3 k) [1..<length names + 2]"
  show ?thesis
  proof (cases "find (\<lambda>c. c \<notin> set names) ?cands")
    case (Some c)
    then have "c \<notin> set names" by (auto simp: find_Some_iff)
    then show ?thesis using True Some by (simp add: unique_name_def)
  next
    case None
    then have sub: "set ?cands \<subseteq> set names" by (auto simp: find_None_iff)
    have "inj_on (\<lambda>k. base @ ''.'' @ pad3 k) (set [1..<length names + 2])"
      by (auto simp: inj_on_def dest: pad3_inj)
    then have "distinct ?cands" by (simp add: distinct_map)
    then have "card (set ?cands) = length ?cands" by (rule distinct_card)
    moreover have "length ?cands = length names + 1" unfolding length_map length_upt by simp
    moreover have "card (set ?cands) \<le> card (set names)" using sub by (intro card_mono) auto
    moreover have "card (set names) \<le> length names" by (rule card_length)
    ultimately show ?thesis by simp
  qed
qed


subsection \<open>The dicts built by the Create operator\<close>

lemma update_fresh: "k \<notin> fst ` set al \<Longrightarrow> AList.update k v al = al @ [(k, v)]"
  by (induction al) auto

lemma update_keys: "fst ` set (AList.update k v al) = insert k (fst ` set al)"
  by (induction al) auto

lemma get_simple_emission_materials_distinct:
  "distinct (map fst (get_simple_emission_materials mats))"
proof -
  have "distinct (map fst acc) \<Longrightarrow>
        distinct (map fst (foldl (\<lambda>emission_materials mat.
              (case emission_color mat of
                 None \<Rightarrow> emission_materials
               | Some c \<Rightarrow> AList.update (mat_name mat) c emission_materials)) acc mats))" for acc
    by (induction mats arbitrary: acc) (auto simp: distinct_update split: option.splits)
  then show ?thesis by (simp add: get_simple_emission_materials_def)
qed

lemma build_index_map_snoc:
  "build_index_map (mc @ [x]) = AList.update (fst x) (length mc) (build_index_map mc)"
  by (simp add: build_index_map_def enumerate_append_eq)

lemma swapped_enumerate_keys:
  "map fst (map (\<lambda>(i, nm). (nm, i)) (enumerate 0 xs)) = xs"
proof -
  have "map fst (map (\<lambda>(i, nm). (nm, i)) (enumerate 0 xs)) = map snd (enumerate 0 xs)"
    by (simp add: case_prod_unfold comp_def)
  then show ?thesis by simp
qed

lemma build_index_map_eq:
  "distinct (map fst mc) \<Longrightarrow>
   build_index_map mc = map (\<lambda>(i, nm). (nm, i)) (enumerate 0 (map fst mc))"
proof (induction mc rule: rev_induct)
  case Nil
  then show ?case by (simp add: build_index_map_def)
next
  case (snoc x mc)
  then have IH: "build_index_map mc = map (\<lambda>(i, nm). (nm, i)) (enumerate 0 (map fst mc))"
    and fresh: "fst x \<notin> fst ` set mc" by auto
  have "set (map fst (build_index_map mc)) = set (map fst mc)"
    unfolding IH swapped_enumerate_keys ..
  then have keys: "fst ` set (build_index_map mc) = fst ` set mc" by simp
  show ?case
    unfolding build_index_map_snoc
    using update_fresh[of "fst x" "build_index_map mc" "length mc"] fresh keys IH
    by (simp add: enumerate_append_eq)
qed

lemma build_index_map_length:
  "distinct (map fst mc) \<Longrightarrow> length (build_index_map mc) = length mc"
  by (simp add: build_index_map_eq)

lemma build_index_map_lookup:
  assumes "distinct (map fst mc)" and "i < length mc"
  shows "map_of (build_index_map mc) (fst (mc ! i)) = Some i"
proof -
  have d: "distinct (map fst (map (\<lambda>(i, nm). (nm, i)) (enumerate 0 (map fst mc))))"
    unfolding swapped_enumerate_keys using assms(1) .
  have "(fst (mc ! i), i) \<in> set (map (\<lambda>(i, nm). (nm, i)) (enumerate 0 (map fst mc)))"
    using assms(2) by (force simp: enumerate_eq_zip in_set_zip)
  then show ?thesis unfolding build_index_map_eq[OF assms(1)] using d by simp
qed

subsection \<open>Looking up data blocks by name\<close>

lemma find_append_cases:
  "find P (xs @ ys) = (case find P xs of None \<Rightarrow> find P ys | Some x \<Rightarrow> Some x)"
  by (induction xs) auto

lemma lookup_material_None: "lookup_material mats nm = None \<longleftrightarrow> nm \<notin> set (map mat_name mats)"
  by (auto simp: lookup_material_def find_None_iff)


lemma lookup_material_append_None:
  "lookup_material mats nm = None \<Longrightarrow> lookup_material (mats @ extra) nm = lookup_material extra nm"
  by (simp add: lookup_material_def find_append_cases)


lemma lookup_material_snoc_fresh:
  assumes "mat_name m \<notin> set (map mat_name mats)"
  shows "lookup_material (mats @ [m]) (mat_name m) = Some m"
proof -
  have "lookup_material mats (mat_name m) = None" using assms by (simp add: lookup_material_None)
  then have "lookup_material (mats @ [m]) (mat_name m) = lookup_material [m] (mat_name m)"
    by (rule lookup_material_append_None)
  then show ?thesis by (simp add: lookup_material_def)
qed

lemma lookup_image_snoc_fresh:
  assumes "img_name im \<notin> set (map img_name imgs)"
  shows "lookup_image (imgs @ [im]) (img_name im) = Some im"
proof -
  have "find (\<lambda>x. img_name x = img_name im) imgs = None"
    using assms by (force simp: find_None_iff image_iff)
  then show ?thesis by (simp add: lookup_image_def find_append_cases)
qed

lemma create_texture_atlas_fields:
  assumes "create_texture_atlas nm mc W H = Inr (Some img)"
  shows "img_name img = nm" and "img_width img = W" and "img_height img = H"
    and "atlas_columns img = Some (int (length mc))"
  using assms
  by (auto simp: create_texture_atlas_def Let_def split: if_splits sum.splits)

subsection \<open>The loop of the Create operator over the selected objects\<close>

lemma convert_object_step:
  assumes "convert_object m atlas am obj st = Inr st'"
  shows "selected_objects st' = selected_objects st"
    and "data_materials st' = data_materials st"
    and "data_images st' = data_images st"
    and "obj_type obj = ''MESH'' \<Longrightarrow>
           \<exists>me. data_meshes st' (obj_data obj) = Some me \<and> mesh_materials me = [Some am]"
    and "obj_type obj \<noteq> ''MESH'' \<or> d \<noteq> obj_data obj \<Longrightarrow> data_meshes st' d = data_meshes st d"
  using assms
  by (auto simp: convert_object_def Let_def split: if_splits option.splits sum.splits)

lemma convert_loop:
  assumes "foldE (convert_object m atlas am) objs st = Inr st'"
  shows "selected_objects st' = selected_objects st \<and>
         data_materials st' = data_materials st \<and>
         data_images st' = data_images st \<and>
         (\<forall>obj\<in>set objs. obj_type obj = ''MESH'' \<longrightarrow>
            (\<exists>me. data_meshes st' (obj_data obj) = Some me \<and> mesh_materials me = [Some am])) \<and>
         (\<forall>d. (\<exists>me. data_meshes st d = Some me \<and> mesh_materials me = [Some am]) \<longrightarrow>
            (\<exists>me. data_meshes st' d = Some me \<and> mesh_materials me = [Some am])) \<and>
         (\<forall>d. d \<notin> obj_data ` {obj \<in> set objs. obj_type obj = ''MESH''} \<longrightarrow>
            data_meshes st' d = data_meshes st d)"
  using assms
proof (induction objs arbitrary: st)
  case Nil
  then show ?case by simp
next
  case (Cons obj objs)
  from Cons.prems obtain st1 where
    step: "convert_object m atlas am obj st = Inr st1"
    and rest: "foldE (convert_object m atlas am) objs st1 = Inr st'"
    by (auto split: sum.splits)
  note s = convert_object_step[OF step]
  note IH = Cons.IH[OF rest]
  have keep1: "\<And>d. (\<exists>me. data_meshes st d = Some me \<and> mesh_materials me = [Some am]) \<Longrightarrow>
            (\<exists>me. data_meshes st1 d = Some me \<and> mesh_materials me = [Some am])"
  proof -
    fix d assume a: "\<exists>me. data_meshes st d = Some me \<and> mesh_materials me = [Some am]"
    show "\<exists>me. data_meshes st1 d = Some me \<and> mesh_materials me = [Some am]"
    proof (cases "obj_type obj = ''MESH'' \<and> d = obj_data obj")
      case True
      then show ?thesis using s(4) by simp
    next
      case False
      then have "data_meshes st1 d = data_meshes st d" using s(5)[of d] by blast
      then show ?thesis using a by simp
    qed
  qed
  have A: "selected_objects st' = selected_objects st" using IH s(1) by simp
  have B: "data_materials st' = data_materials st" using IH s(2) by simp
  have C: "data_images st' = data_images st" using IH s(3) by simp
  have D: "\<forall>o'\<in>set (obj # objs). obj_type o' = ''MESH'' \<longrightarrow>
            (\<exists>me. data_meshes st' (obj_data o') = Some me \<and> mesh_materials me = [Some am])"
  proof (intro ballI impI)
    fix o' assume o': "o' \<in> set (obj # objs)" and t: "obj_type o' = ''MESH''"
    show "\<exists>me. data_meshes st' (obj_data o') = Some me \<and> mesh_materials me = [Some am]"
    proof (cases "o' \<in> set objs")
      case True
      then show ?thesis using IH t by blast
    next
      case False
      then have "o' = obj" using o' by simp
      then have "\<exists>me. data_meshes st1 (obj_data o') = Some me \<and> mesh_materials me = [Some am]"
        using s(4) t by simp
      then show ?thesis using IH by blast
    qed
  qed
  have E: "\<forall>d. (\<exists>me. data_meshes st d = Some me \<and> mesh_materials me = [Some am]) \<longrightarrow>
            (\<exists>me. data_meshes st' d = Some me \<and> mesh_materials me = [Some am])"
    using keep1 IH by blast
  have F: "\<forall>d. d \<notin> obj_data ` {o' \<in> set (obj # objs). obj_type o' = ''MESH''} \<longrightarrow>
            data_meshes st' d = data_meshes st d"
  proof (intro allI impI)
    fix d assume d: "d \<notin> obj_data ` {o' \<in> set (obj # objs). obj_type o' = ''MESH''}"
    then have 1: "d \<notin> obj_data ` {o' \<in> set objs. obj_type o' = ''MESH''}" by auto
    from d have 2: "obj_type obj \<noteq> ''MESH'' \<or> d \<noteq> obj_data obj" by auto
    have "data_meshes st' d = data_meshes st1 d" using IH 1 by blast
    also have "\<dots> = data_meshes st d" using s(5)[OF 2] .
    finally show "data_meshes st' d = data_meshes st d" .
  qed
  show ?case using A B C D E F by blast
qed

lemma convert_execute_cases:
  assumes "ConvertToEmissionAtlas_execute st = Inr (FINISHED, st')"
  obtains atlas where
    "create_texture_atlas (unique_name ''Emission_Atlas'' (map img_name (data_images st)))
       (get_simple_emission_materials (data_materials st)) 1024 256 = Inr (Some atlas)"
    and "foldE (convert_object (build_index_map (get_simple_emission_materials (data_materials st)))
                  atlas (mat_name (create_atlas_material atlas (data_materials st))))
           (selected_objects st)
           (st\<lparr>data_images := data_images st @ [atlas],
               data_materials := data_materials st @ [create_atlas_material atlas (data_materials st)],
               ORIGINAL_MATERIALS := []\<rparr>) = Inr st'"
  using assms
  by (auto simp: ConvertToEmissionAtlas_execute_def Let_def
           split: if_splits sum.splits option.splits)

text \<open>
  Claim C6. After a run of the Create Atlas operator that finishes, the data of every
  selected object of type MESH has exactly one material slot, which holds the one
  atlas material the run has created: the material made by \<open>create_atlas_material\<close>,
  new in \<open>bpy.data.materials\<close> and found there under its name, whose image texture
  node refers to the new atlas image made by \<open>create_texture_atlas\<close>. The selection is as before, and so is every data block
  that is not the data of a selected mesh object.
\<close>

theorem convert_assigns_atlas_material:
  assumes "ConvertToEmissionAtlas_execute st = Inr (FINISHED, st')"
  shows "\<exists>atlas atlas_mat.
           create_texture_atlas (unique_name ''Emission_Atlas'' (map img_name (data_images st)))
               (get_simple_emission_materials (data_materials st)) 1024 256 = Inr (Some atlas)
           \<and> img_name atlas \<notin> set (map img_name (data_images st))
           \<and> set (data_images st') = insert atlas (set (data_images st))
           \<and> lookup_image (data_images st') (img_name atlas) = Some atlas
           \<and> atlas_mat = create_atlas_material atlas (data_materials st)
           \<and> mat_name atlas_mat \<notin> set (map mat_name (data_materials st))
           \<and> set (data_materials st') = insert atlas_mat (set (data_materials st))
           \<and> lookup_material (data_materials st') (mat_name atlas_mat) = Some atlas_mat
           \<and> use_nodes atlas_mat
           \<and> map node_type (nodes atlas_mat) = [''TEX_IMAGE'', ''EMISSION'', ''OUTPUT_MATERIAL'']
           \<and> node_image (nodes atlas_mat ! 0) = Some (img_name atlas)
           \<and> (\<forall>obj\<in>set (selected_objects st). obj_type obj = ''MESH'' \<longrightarrow>
                (\<exists>me. data_meshes st' (obj_data obj) = Some me
                   \<and> mesh_materials me = [Some (mat_name atlas_mat)]))
           \<and> selected_objects st' = selected_objects st
           \<and> (\<forall>d. d \<notin> obj_data ` {obj \<in> set (selected_objects st). obj_type obj = ''MESH''}
                \<longrightarrow> data_meshes st' d = data_meshes st d)"
proof -
  from assms obtain atlas where
    made: "create_texture_atlas (unique_name ''Emission_Atlas'' (map img_name (data_images st)))
             (get_simple_emission_materials (data_materials st)) 1024 256 = Inr (Some atlas)"
    and loop: "foldE (convert_object (build_index_map (get_simple_emission_materials (data_materials st)))
                  atlas (mat_name (create_atlas_material atlas (data_materials st))))
           (selected_objects st)
           (st\<lparr>data_images := data_images st @ [atlas],
               data_materials := data_materials st @ [create_atlas_material atlas (data_materials st)],
               ORIGINAL_MATERIALS := []\<rparr>) = Inr st'"
    by (rule convert_execute_cases)
  let ?am = "create_atlas_material atlas (data_materials st)"
  have iname: "img_name atlas = unique_name ''Emission_Atlas'' (map img_name (data_images st))"
    using made by (rule create_texture_atlas_fields)
  have ifresh: "img_name atlas \<notin> set (map img_name (data_images st))"
    unfolding iname by (rule unique_name_fresh)
  have fresh: "mat_name ?am \<notin> set (map mat_name (data_materials st))"
    using unique_name_fresh[of "''AtlasMaterial''" "map mat_name (data_materials st)"]
    by (simp add: create_atlas_material_def)
  from convert_loop[OF loop] have
    mats: "data_materials st' = data_materials st @ [?am]"
    and imgs: "data_images st' = data_images st @ [atlas]"
    and slots: "\<forall>obj\<in>set (selected_objects st). obj_type obj = ''MESH'' \<longrightarrow>
                (\<exists>me. data_meshes st' (obj_data obj) = Some me
                   \<and> mesh_materials me = [Some (mat_name ?am)])"
    and sel: "selected_objects st' = selected_objects st"
    and frame: "\<forall>d. d \<notin> obj_data ` {obj \<in> set (selected_objects st). obj_type obj = ''MESH''}
                \<longrightarrow> data_meshes st' d = data_meshes st d"
    by simp_all
  have A: "set (data_images st') = insert atlas (set (data_images st))" using imgs by simp
  have B: "lookup_image (data_images st') (img_name atlas) = Some atlas"
    unfolding imgs using ifresh by (rule lookup_image_snoc_fresh)
  have C: "set (data_materials st') = insert ?am (set (data_materials st))" using mats by simp
  have D: "lookup_material (data_materials st') (mat_name ?am) = Some ?am"
    unfolding mats using fresh by (rule lookup_material_snoc_fresh)
  have E: "use_nodes ?am"
    "map node_type (nodes ?am) = [''TEX_IMAGE'', ''EMISSION'', ''OUTPUT_MATERIAL'']"
    "node_image (nodes ?am ! 0) = Some (img_name atlas)"
    by (simp_all add: create_atlas_material_def)
  show ?thesis
    by (intro exI conjI) (rule made ifresh A B fresh C D E slots sel frame refl)+
qed

subsection \<open>Runs of the Create operator\<close>

lemma convert_execute_run:
  assumes "get_simple_emission_materials (data_materials st) \<noteq> []"
  obtains atlas where
    "img_name atlas = unique_name ''Emission_Atlas'' (map img_name (data_images st))"
    and "img_width atlas = 1024" and "img_height atlas = 256"
    and "atlas_columns atlas
           = Some (int (length (get_simple_emission_materials (data_materials st))))"
    and "ConvertToEmissionAtlas_execute st =
           (case foldE (convert_object
                          (build_index_map (get_simple_emission_materials (data_materials st)))
                          atlas (mat_name (create_atlas_material atlas (data_materials st))))
                   (selected_objects st)
                   (st\<lparr>data_images := data_images st @ [atlas],
                       data_materials := data_materials st
                          @ [create_atlas_material atlas (data_materials st)],
                       ORIGINAL_MATERIALS := []\<rparr>) of
              Inl e \<Rightarrow> Inl e
            | Inr st2 \<Rightarrow> Inr (FINISHED, st2))"
proof -
  let ?mc = "get_simple_emission_materials (data_materials st)"
  from create_texture_atlas_pixels[OF assms get_simple_emission_materials_distinct,
      of "unique_name ''Emission_Atlas'' (map img_name (data_images st))" 1024 256]
  obtain atlas where
    a: "create_texture_atlas (unique_name ''Emission_Atlas'' (map img_name (data_images st)))
          ?mc 1024 256 = Inr (Some atlas)"
    and b: "img_name atlas = unique_name ''Emission_Atlas'' (map img_name (data_images st))"
      "img_width atlas = 1024" "img_height atlas = 256"
      "atlas_columns atlas = Some (int (length ?mc))"
    by blast
  have "ConvertToEmissionAtlas_execute st =
           (case foldE (convert_object (build_index_map ?mc)
                          atlas (mat_name (create_atlas_material atlas (data_materials st))))
                   (selected_objects st)
                   (st\<lparr>data_images := data_images st @ [atlas],
                       data_materials := data_materials st
                          @ [create_atlas_material atlas (data_materials st)],
                       ORIGINAL_MATERIALS := []\<rparr>) of
              Inl e \<Rightarrow> Inl e
            | Inr st2 \<Rightarrow> Inr (FINISHED, st2))"
    using assms a by (simp add: ConvertToEmissionAtlas_execute_def Let_def)
  with b show ?thesis using that by blast
qed

lemmas scene_eval =
  create_scene_def linked_scene_def red_material_def unused_material_def red_mesh_def
  cube_def cube_linked_def lamp_def

lemmas convert_eval =
  convert_object_def remap_uvs_def remap_face_def u_center_def build_index_map_def
  create_atlas_material_def unique_name_def Let_def
  get_simple_emission_materials_def emission_color_def

lemma create_scene_materials:
  "get_simple_emission_materials (data_materials create_scene)
     = [(''Red'', (1, 0, 0)), (''Unused'', (0, 1, 0))]"
  by (simp add: get_simple_emission_materials_def emission_color_def scene_eval)

lemma linked_scene_materials:
  "get_simple_emission_materials (data_materials linked_scene) = [(''Red'', (1, 0, 0))]"
  by (simp add: get_simple_emission_materials_def emission_color_def scene_eval)

lemma create_scene_run:
  "\<exists>st' atlas.
     ConvertToEmissionAtlas_execute create_scene = Inr (FINISHED, st')
     \<and> data_images st' = [atlas] \<and> atlas_columns atlas = Some 2
     \<and> data_meshes st' 1 = None"
proof -
  have ne: "get_simple_emission_materials (data_materials create_scene) \<noteq> []"
    by (simp add: create_scene_materials)
  from convert_execute_run[OF ne] obtain atlas where
    a: "img_name atlas = unique_name ''Emission_Atlas'' (map img_name (data_images create_scene))"
      "img_width atlas = 1024" "img_height atlas = 256"
      "atlas_columns atlas
           = Some (int (length (get_simple_emission_materials (data_materials create_scene))))"
    and run: "ConvertToEmissionAtlas_execute create_scene =
           (case foldE (convert_object
                          (build_index_map (get_simple_emission_materials (data_materials create_scene)))
                          atlas (mat_name (create_atlas_material atlas (data_materials create_scene))))
                   (selected_objects create_scene)
                   (create_scene\<lparr>data_images := data_images create_scene @ [atlas],
                       data_materials := data_materials create_scene
                          @ [create_atlas_material atlas (data_materials create_scene)],
                       ORIGINAL_MATERIALS := []\<rparr>) of
              Inl e \<Rightarrow> Inl e
            | Inr st2 \<Rightarrow> Inr (FINISHED, st2))"
    by blast
  have cols: "atlas_columns atlas = Some 2"
    using a(4) unfolding create_scene_materials by simp
  show ?thesis
    unfolding run using a(2,3) cols
    by (simp add: convert_eval scene_eval)
qed

theorem convert_assigns_atlas_material_witness:
  "\<exists>st' atlas atlas_mat me.
     ConvertToEmissionAtlas_execute create_scene = Inr (FINISHED, st')
     \<and> lookup_image (data_images st') (img_name atlas) = Some atlas
     \<and> atlas_columns atlas = Some 2
     \<and> lookup_material (data_materials st') (mat_name atlas_mat) = Some atlas_mat
     \<and> map node_type (nodes atlas_mat) = [''TEX_IMAGE'', ''EMISSION'', ''OUTPUT_MATERIAL'']
     \<and> node_image (nodes atlas_mat ! 0) = Some (img_name atlas)
     \<and> data_meshes st' (obj_data cube) = Some me
     \<and> mesh_materials me = [Some (mat_name atlas_mat)]
     \<and> selected_objects st' = [cube, lamp]
     \<and> data_meshes st' (obj_data lamp) = data_meshes create_scene (obj_data lamp)"
proof -
  from create_scene_run obtain st' where
    run: "ConvertToEmissionAtlas_execute create_scene = Inr (FINISHED, st')" by blast
  from convert_assigns_atlas_material[OF run] obtain atlas atlas_mat where
    0: "create_texture_atlas
          (unique_name ''Emission_Atlas'' (map img_name (data_images create_scene)))
          (get_simple_emission_materials (data_materials create_scene)) 1024 256
        = Inr (Some atlas)"
    and 1: "lookup_image (data_images st') (img_name atlas) = Some atlas"
      "lookup_material (data_materials st') (mat_name atlas_mat) = Some atlas_mat"
      "map node_type (nodes atlas_mat) = [''TEX_IMAGE'', ''EMISSION'', ''OUTPUT_MATERIAL'']"
      "node_image (nodes atlas_mat ! 0) = Some (img_name atlas)"
    and 2: "\<forall>obj\<in>set (selected_objects create_scene). obj_type obj = ''MESH'' \<longrightarrow>
                (\<exists>me. data_meshes st' (obj_data obj) = Some me
                   \<and> mesh_materials me = [Some (mat_name atlas_mat)])"
    and 3: "selected_objects st' = selected_objects create_scene"
    and 4: "\<forall>d. d \<notin> obj_data ` {obj \<in> set (selected_objects create_scene). obj_type obj = ''MESH''}
                \<longrightarrow> data_meshes st' d = data_meshes create_scene d"
    by - (elim exE conjE, rule that, assumption+)
  have cols: "atlas_columns atlas = Some 2"
    using create_texture_atlas_fields(4)[OF 0] unfolding create_scene_materials by simp
  have sel: "selected_objects create_scene = [cube, lamp]" by (simp add: create_scene_def)
  have "cube \<in> set (selected_objects create_scene)" and "obj_type cube = ''MESH''"
    by (simp_all add: sel cube_def)
  with 2 obtain me where
    5: "data_meshes st' (obj_data cube) = Some me" "mesh_materials me = [Some (mat_name atlas_mat)]"
    by blast
  have "obj_data lamp \<notin> obj_data ` {obj \<in> set (selected_objects create_scene). obj_type obj = ''MESH''}"
    by (auto simp: sel cube_def lamp_def)
  with 4 have 6: "data_meshes st' (obj_data lamp) = data_meshes create_scene (obj_data lamp)"
    by blast
  have s: "selected_objects st' = [cube, lamp]" using 3 sel by simp
  show ?thesis
    by (intro exI conjI) (rule run 1 cols 5 6 s)+
qed

text \<open>
  Claim C3, at the failing input. The blend file holds two emission materials; the
  selected mesh uses only \<open>Red\<close>, yet \<open>Unused\<close>, which no selected object has, gets
  a column as well: the atlas of the run has two columns. A material whose emission
  colour comes from a texture, as the atlas material of an earlier run, counts too.
\<close>

theorem unused_material_gets_column:
  "get_simple_emission_materials (data_materials create_scene)
     = [(''Red'', (1, 0, 0)), (''Unused'', (0, 1, 0))]
   \<and> selected_objects create_scene = [cube, lamp]
   \<and> data_meshes create_scene (obj_data cube) = Some red_mesh
   \<and> mesh_materials red_mesh = [Some ''Red'']
   \<and> (\<exists>st' atlas. ConvertToEmissionAtlas_execute create_scene = Inr (FINISHED, st')
          \<and> data_images st' = [atlas] \<and> atlas_columns atlas = Some 2)
   \<and> emission_color small_atlas_material = Some (1, 1, 1)"
proof -
  have "\<exists>st' atlas. ConvertToEmissionAtlas_execute create_scene = Inr (FINISHED, st')
          \<and> data_images st' = [atlas] \<and> atlas_columns atlas = Some 2"
    using create_scene_run by blast
  moreover have "emission_color small_atlas_material = Some (1, 1, 1)"
    by (simp add: emission_color_def small_atlas_material_def)
  moreover have "data_meshes create_scene (obj_data cube) = Some red_mesh"
    by (simp add: create_scene_def cube_def)
  moreover have "mesh_materials red_mesh = [Some ''Red'']" by (simp add: red_mesh_def)
  moreover have "selected_objects create_scene = [cube, lamp]" by (simp add: create_scene_def)
  ultimately show ?thesis using create_scene_materials by blast
qed

text \<open>
  Claim C7, at the failing input. Two selected mesh objects share one data block with
  the material \<open>Red\<close>. When the loop reaches the second object, the slots of the shared
  data hold the atlas material already, so \<open>ORIGINAL_MATERIALS\<close> stores the atlas
  material for it and not the material it had before the run; the Revert operator then
  leaves the atlas material on the shared data.
\<close>

theorem linked_duplicate_originals_lost:
  "data_meshes linked_scene (obj_data cube_linked) = Some red_mesh
   \<and> mesh_materials red_mesh = [Some ''Red'']
   \<and> (\<exists>st' st'' me.
         ConvertToEmissionAtlas_execute linked_scene = Inr (FINISHED, st')
         \<and> ORIGINAL_MATERIALS st'
              = [(''Cube'', [Some ''Red'']), (''Cube.001'', [Some ''AtlasMaterial''])]
         \<and> RevertEmissionAtlas_execute st' = Inr (FINISHED, st'')
         \<and> data_meshes st'' (obj_data cube_linked) = Some me
         \<and> mesh_materials me = [Some ''AtlasMaterial''])"
proof -
  have ne: "get_simple_emission_materials (data_materials linked_scene) \<noteq> []"
    by (simp add: linked_scene_materials)
  from convert_execute_run[OF ne] obtain atlas where
    a: "img_width atlas = 1024" "img_height atlas = 256"
    and run: "ConvertToEmissionAtlas_execute linked_scene =
           (case foldE (convert_object
                          (build_index_map (get_simple_emission_materials (data_materials linked_scene)))
                          atlas (mat_name (create_atlas_material atlas (data_materials linked_scene))))
                   (selected_objects linked_scene)
                   (linked_scene\<lparr>data_images := data_images linked_scene @ [atlas],
                       data_materials := data_materials linked_scene
                          @ [create_atlas_material atlas (data_materials linked_scene)],
                       ORIGINAL_MATERIALS := []\<rparr>) of
              Inl e \<Rightarrow> Inl e
            | Inr st2 \<Rightarrow> Inr (FINISHED, st2))"
    by blast
  have "\<exists>st' st'' me.
         ConvertToEmissionAtlas_execute linked_scene = Inr (FINISHED, st')
         \<and> ORIGINAL_MATERIALS st'
              = [(''Cube'', [Some ''Red'']), (''Cube.001'', [Some ''AtlasMaterial''])]
         \<and> RevertEmissionAtlas_execute st' = Inr (FINISHED, st'')
         \<and> data_meshes st'' (obj_data cube_linked) = Some me
         \<and> mesh_materials me = [Some ''AtlasMaterial'']"
    unfolding run using a
    by (simp add: convert_eval scene_eval RevertEmissionAtlas_execute_def revert_object_def)
  moreover have "data_meshes linked_scene (obj_data cube_linked) = Some red_mesh"
    by (simp add: linked_scene_def cube_linked_def)
  moreover have "mesh_materials red_mesh = [Some ''Red'']" by (simp add: red_mesh_def)
  ultimately show ?thesis by blast
qed

subsection \<open>The UV centre against the filled columns\<close>

lemma white_materials_facts:
  shows "white_materials \<noteq> []" and "length white_materials = 25"
    and "distinct (map fst white_materials)"
    and "white_materials ! 24 = (''White_24'', (1, 1, 1))"
proof -
  show "white_materials \<noteq> []" and "length white_materials = 25"
    by (simp_all add: white_materials_def)
  have "map fst white_materials = map (\<lambda>k. ''White_'' @ str_nat k) [0..<25]"
    by (simp add: white_materials_def comp_def)
  moreover have "inj_on (\<lambda>k. ''White_'' @ str_nat k) (set [0..<25])"
    by (auto simp: inj_on_def dest: str_nat_inj)
  ultimately show "distinct (map fst white_materials)" by (simp add: distinct_map)
  show "white_materials ! 24 = (''White_24'', (1, 1, 1))"
    by (simp add: white_materials_def str_nat.simps digit_char_def)
qed

text \<open>
  Claim C1, at the failing input. With 25 materials the atlas columns are
  \<open>1024 // 25 = 40\<close> pixels wide and fill the pixels \<open>0 .. 999\<close>, while \<open>remap_uvs\<close>
  divides the width by 25 without rounding: a face with the last material gets
  \<open>u = 49/50\<close>, which falls on pixel 1003, outside column 24 and outside every filled
  column. The atlas holds transparent black there, not the white of the material.
\<close>

theorem remap_uvs_center_outside_column:
  "\<exists>img f'.
     create_texture_atlas ''Emission_Atlas'' white_materials 1024 256 = Inr (Some img)
     \<and> remap_face [Some ''White_24''] (build_index_map white_materials) 1024
          \<lparr>material_index = 0, loops = [(0, 0), (1, 0), (0, 1)]\<rparr> = Inr f'
     \<and> loops f' = [(49 / 50, 1 / 2), (49 / 50, 1 / 2), (49 / 50, 1 / 2)]
     \<and> uv_pixel 1024 256 (49 / 50, 1 / 2) = (1003, 128)
     \<and> \<not> (24 * (1024 div 25) \<le> (1003::nat) \<and> (1003::nat) < 25 * (1024 div 25))
     \<and> map_of white_materials ''White_24'' = Some (1, 1, 1)
     \<and> img_pixels img ! (px_index 1024 0 1003 128 + 0) = 0
     \<and> img_pixels img ! (px_index 1024 0 1003 128 + 1) = 0
     \<and> img_pixels img ! (px_index 1024 0 1003 128 + 2) = 0
     \<and> img_pixels img ! (px_index 1024 0 1003 128 + 3) = 0"
proof -
  note wm = white_materials_facts
  from create_texture_atlas_pixels[OF wm(1) wm(3), of "''Emission_Atlas''" 1024 256]
  obtain img where
    img: "create_texture_atlas ''Emission_Atlas'' white_materials 1024 256 = Inr (Some img)"
    and px: "\<forall>j<1024 * 256 * 4. img_pixels img ! j =
              (if (j div 4) mod 1024 < length white_materials * (1024 div length white_materials)
               then store_byte (channel (snd (white_materials !
                      (((j div 4) mod 1024) div (1024 div length white_materials)))) (j mod 4))
               else 0)"
    by blast
  have black: "img_pixels img ! (px_index 1024 0 1003 128 + k) = 0" if "k < 4" for k
  proof -
    from that have k: "k = 0 \<or> k = 1 \<or> k = 2 \<or> k = 3" by auto
    have p: "px_index 1024 0 1003 128 = 528300" by (simp add: px_index_def)
    from k have "528300 + k < 1024 * 256 * 4" by auto
    moreover from k have "((528300 + k) div 4) mod 1024 = 1003" by auto
    ultimately show ?thesis using px unfolding p by (simp add: wm(2))
  qed
  have look: "map_of (build_index_map white_materials) ''White_24'' = Some 24"
    using build_index_map_lookup[OF wm(3), of 24] by (simp add: wm(2) wm(4))
  have len: "length (build_index_map white_materials) = 25"
    using build_index_map_length[OF wm(3)] by (simp add: wm(2))
  have face: "remap_face [Some ''White_24''] (build_index_map white_materials) 1024
          \<lparr>material_index = 0, loops = [(0, 0), (1, 0), (0, 1)]\<rparr>
        = Inr \<lparr>material_index = 0,
               loops = [(49 / 50, 1 / 2), (49 / 50, 1 / 2), (49 / 50, 1 / 2)]\<rparr>"
    by (simp add: remap_face_def look len u_center_def)
  have pix: "uv_pixel 1024 256 (49 / 50, 1 / 2) = (1003, 128)"
    by (simp add: uv_pixel_def)
  have out: "\<not> (24 * (1024 div 25) \<le> (1003::nat) \<and> (1003::nat) < 25 * (1024 div 25))"
    by simp
  have "(24::nat) < length white_materials" by (simp add: wm(2))
  then have "white_materials ! 24 \<in> set white_materials" by (rule nth_mem)
  then have "(''White_24'', (1, 1, 1)) \<in> set white_materials" by (simp add: wm(4))
  then have col: "map_of white_materials ''White_24'' = Some (1, 1, 1)"
    using wm(3) by simp
  show ?thesis
    using img face pix out col black[of 0] black[of 1] black[of 2] black[of 3] by simp
qed

subsection \<open>The materials regenerated by the Unpack operator\<close>













subsection \<open>The packaging script\<close>

lemma map_of_filter_key:
  "map_of (filter (\<lambda>(p, e). Q p) fs) p = (if Q p then map_of fs p else None)"
  by (induction fs) auto

lemma map_of_snoc_fresh:
  "map_of fs k = None \<Longrightarrow> map_of (fs @ [(k, v)]) = (map_of fs)(k \<mapsto> v)"
  by (induction fs) (auto split: if_splits)

lemma is_under_child: "is_under d (d @ CHR ''/'' # name)"
  by (simp add: is_under_def)

lemma is_under_split: "is_under d p \<Longrightarrow> p = d @ ''/'' @ drop (length d + 1) p"
  unfolding is_under_def by (metis append.assoc append_take_drop_id)

lemma parent_dir_child: "CHR ''/'' \<notin> set name \<Longrightarrow> parent_dir (d @ ''/'' @ name) = d"
proof -
  assume a: "CHR ''/'' \<notin> set name"
  have "dropWhile (\<lambda>c. c \<noteq> CHR ''/'') (rev name @ CHR ''/'' # rev d) = CHR ''/'' # rev d"
    using a by (subst dropWhile_append2) auto
  then show ?thesis by (simp add: parent_dir_def)
qed

lemma as_zip_foldl:
  "as_zip (foldl parse_arg a xs) \<longleftrightarrow> as_zip a \<or> ''--as-zip'' \<in> set xs"
  by (induction xs arbitrary: a) (auto simp: parse_arg_def)

lemma parse_args_as_zip: "as_zip (parse_args argv) \<longleftrightarrow> ''--as-zip'' \<in> set (drop 1 argv)"
  by (simp add: parse_args_def as_zip_foldl)

lemma copy_into:
  assumes "distinct (map fst fs)" and "map_of fs src = Some (File c)"
    and "map_of fs d = Some Dir" and "CHR ''/'' \<notin> set src"
    and "map_of fs (d @ ''/'' @ src) \<noteq> Some Dir"
  shows "\<exists>fs'. copy fs src d = Inr fs' \<and> distinct (map fst fs')
           \<and> map_of fs' = (map_of fs)(d @ ''/'' @ src \<mapsto> File c)"
proof -
  have "copy fs src d = Inr (AList.update (d @ ''/'' @ src) (File c) fs)"
    using assms(2,3,5) parent_dir_child[OF assms(4), of d]
    by (simp add: copy_def read_text_def create_file_def)
  then show ?thesis using assms(1) by (simp add: update_conv' distinct_update)
qed

lemma optional_copy:
  assumes "distinct (map fst fs)" and "map_of fs src \<noteq> Some Dir"
    and "map_of fs d = Some Dir" and "CHR ''/'' \<notin> set src"
    and "map_of fs (d @ ''/'' @ src) = None"
  shows "\<exists>fs'. (if path_exists fs src then copy fs src d else Inr fs) = Inr fs'
           \<and> distinct (map fst fs')
           \<and> (\<forall>p. map_of fs' p = (if p = d @ ''/'' @ src then map_of fs src else map_of fs p))"
proof (cases "map_of fs src")
  case None
  then show ?thesis using assms(1,5) by (auto simp: path_exists_def)
next
  case (Some e)
  with assms(2) obtain c where c: "map_of fs src = Some (File c)" by (cases e) auto
  have "map_of fs (d @ ''/'' @ src) \<noteq> Some Dir" using assms(5) by simp
  from copy_into[OF assms(1) c assms(3,4) this] c show ?thesis
    by (auto simp: path_exists_def)
qed

lemma clear_staging:
  assumes "build_ready fs"
  shows "\<exists>fs1. (if path_exists fs OUTPUT_FOLDER then rmtree fs OUTPUT_FOLDER else Inr fs) = Inr fs1
           \<and> distinct (map fst fs1)
           \<and> (\<forall>p. map_of fs1 p = (if p = OUTPUT_FOLDER \<or> is_under OUTPUT_FOLDER p then None
                                   else map_of fs p))"
proof (cases "map_of fs OUTPUT_FOLDER")
  case None
  with assms have none: "list_all (\<lambda>(p, e). \<not> is_under OUTPUT_FOLDER p) fs"
    and d: "distinct (map fst fs)" by (simp_all add: build_ready_def)
  have "map_of fs p = None" if "is_under OUTPUT_FOLDER p" for p
  proof (rule ccontr)
    assume "map_of fs p \<noteq> None"
    then obtain e where "(p, e) \<in> set fs" by (auto dest: map_of_SomeD)
    with none that show False by (auto simp: list_all_iff)
  qed
  then show ?thesis using None d by (auto simp: path_exists_def)
next
  case (Some e)
  with assms have e: "e = Dir" and d: "distinct (map fst fs)"
    by (auto simp: build_ready_def split: entry.splits)
  have "rmtree fs OUTPUT_FOLDER
          = Inr (filter (\<lambda>(p, e). p \<noteq> OUTPUT_FOLDER \<and> \<not> is_under OUTPUT_FOLDER p) fs)"
    using Some e by (simp add: rmtree_def)
  then show ?thesis using Some d
    by (auto simp: path_exists_def map_of_filter_key distinct_map_filter)
qed

lemma stage_ok:
  assumes "build_ready fs"
  shows "\<exists>fs5. stage fs = Inr fs5 \<and> distinct (map fst fs5)
           \<and> map_of fs5 OUTPUT_FOLDER = Some Dir
           \<and> (\<forall>name. map_of fs5 (OUTPUT_FOLDER @ ''/'' @ name)
                  = (if name \<in> {SCRIPT_FILE, ''LICENSE'', ''README.md''} then map_of fs name
                     else None))
           \<and> (\<forall>p. p \<noteq> OUTPUT_FOLDER \<and> \<not> is_under OUTPUT_FOLDER p \<longrightarrow> map_of fs5 p = map_of fs p)"
proof -
  from assms obtain script where script: "map_of fs SCRIPT_FILE = Some (File script)"
    and lic: "map_of fs ''LICENSE'' \<noteq> Some Dir" and rd: "map_of fs ''README.md'' \<noteq> Some Dir"
    by (auto simp: build_ready_def)
  have plain: "\<not> is_under OUTPUT_FOLDER SCRIPT_FILE" "SCRIPT_FILE \<noteq> OUTPUT_FOLDER"
    "\<not> is_under OUTPUT_FOLDER ''LICENSE''" "''LICENSE'' \<noteq> OUTPUT_FOLDER"
    "\<not> is_under OUTPUT_FOLDER ''README.md''" "''README.md'' \<noteq> OUTPUT_FOLDER"
    "CHR ''/'' \<notin> set SCRIPT_FILE"
    by (simp_all add: is_under_def SCRIPT_FILE_def OUTPUT_FOLDER_def)
  have child: "\<And>name. OUTPUT_FOLDER @ ''/'' @ name \<noteq> OUTPUT_FOLDER"
    "\<And>name. OUTPUT_FOLDER @ ''/'' @ name \<noteq> SCRIPT_FILE"
    "\<And>name. OUTPUT_FOLDER @ ''/'' @ name \<noteq> ''LICENSE''"
    "\<And>name. OUTPUT_FOLDER @ ''/'' @ name \<noteq> ''README.md''"
    by (simp_all add: SCRIPT_FILE_def OUTPUT_FOLDER_def)
  from clear_staging[OF assms] obtain fs1 where
    1: "(if path_exists fs OUTPUT_FOLDER then rmtree fs OUTPUT_FOLDER else Inr fs) = Inr fs1"
    and d1: "distinct (map fst fs1)"
    and m1: "\<And>p. map_of fs1 p = (if p = OUTPUT_FOLDER \<or> is_under OUTPUT_FOLDER p then None
                                   else map_of fs p)" by blast
  define fs2 where "fs2 = fs1 @ [(OUTPUT_FOLDER, Dir)]"
  have none1: "map_of fs1 OUTPUT_FOLDER = None" by (simp add: m1)
  have 2: "mkdir fs1 OUTPUT_FOLDER = Inr fs2"
    using none1 by (simp add: mkdir_def path_exists_def fs2_def)
  have d2: "distinct (map fst fs2)" using d1 none1 by (simp add: map_of_eq_None_iff fs2_def)
  have "map_of fs2 = (map_of fs1)(OUTPUT_FOLDER \<mapsto> Dir)"
    unfolding fs2_def by (rule map_of_snoc_fresh[OF none1])
  then have m2: "\<And>p. map_of fs2 p = (if p = OUTPUT_FOLDER then Some Dir else map_of fs1 p)"
    by simp
  have s2: "map_of fs2 SCRIPT_FILE = Some (File script)" using plain script by (simp add: m2 m1)
  have o2: "map_of fs2 OUTPUT_FOLDER = Some Dir" by (simp add: m2)
  have c2: "map_of fs2 (OUTPUT_FOLDER @ ''/'' @ SCRIPT_FILE) \<noteq> Some Dir"
    using child(1) by (simp add: m2 m1 is_under_child)
  from copy_into[OF d2 s2 o2 plain(7) c2] obtain fs3 where
    3: "copy fs2 SCRIPT_FILE OUTPUT_FOLDER = Inr fs3" and d3: "distinct (map fst fs3)"
    and m3: "map_of fs3 = (map_of fs2)(OUTPUT_FOLDER @ ''/'' @ SCRIPT_FILE \<mapsto> File script)"
    by blast
  have l3: "map_of fs3 ''LICENSE'' = map_of fs ''LICENSE''"
    using plain child(3)[of SCRIPT_FILE] by (simp add: m3 m2 m1)
  have o3: "map_of fs3 OUTPUT_FOLDER = Some Dir" using child(1)[of SCRIPT_FILE] by (simp add: m3 m2)
  have n3: "map_of fs3 (OUTPUT_FOLDER @ ''/'' @ ''LICENSE'') = None"
    using child(1) by (simp add: m3 m2 m1 is_under_child SCRIPT_FILE_def)
  from optional_copy[OF d3 _ o3 _ n3] lic l3 obtain fs4 where
    4: "(if path_exists fs3 ''LICENSE'' then copy fs3 ''LICENSE'' OUTPUT_FOLDER else Inr fs3) = Inr fs4"
    and d4: "distinct (map fst fs4)"
    and m4: "\<And>p. map_of fs4 p = (if p = OUTPUT_FOLDER @ ''/'' @ ''LICENSE'' then map_of fs ''LICENSE''
                                   else map_of fs3 p)"
    by auto
  have r4: "map_of fs4 ''README.md'' = map_of fs ''README.md''"
    using plain child(4)[of SCRIPT_FILE] child(4)[of "''LICENSE''"] by (simp add: m4 m3 m2 m1)
  have o4: "map_of fs4 OUTPUT_FOLDER = Some Dir" using child(1)[of "''LICENSE''"] o3 by (simp add: m4)
  have n4: "map_of fs4 (OUTPUT_FOLDER @ ''/'' @ ''README.md'') = None"
    using child(1) by (simp add: m4 m3 m2 m1 is_under_child SCRIPT_FILE_def)
  from optional_copy[OF d4 _ o4 _ n4] rd r4 obtain fs5 where
    5: "(if path_exists fs4 ''README.md'' then copy fs4 ''README.md'' OUTPUT_FOLDER else Inr fs4) = Inr fs5"
    and d5: "distinct (map fst fs5)"
    and m5: "\<And>p. map_of fs5 p = (if p = OUTPUT_FOLDER @ ''/'' @ ''README.md'' then map_of fs ''README.md''
                                   else map_of fs4 p)"
    by auto
  have st: "stage fs = Inr fs5" by (simp add: stage_def 1 2 3 4 5)
  have A: "map_of fs5 OUTPUT_FOLDER = Some Dir"
    using child(1)[of "''README.md''"] o4 by (simp add: m5)
  have B: "\<forall>name. map_of fs5 (OUTPUT_FOLDER @ ''/'' @ name)
                  = (if name \<in> {SCRIPT_FILE, ''LICENSE'', ''README.md''} then map_of fs name
                     else None)"
    using child(1) script by (auto simp: m5 m4 m3 m2 m1 is_under_child SCRIPT_FILE_def)
  have C: "\<forall>p. p \<noteq> OUTPUT_FOLDER \<and> \<not> is_under OUTPUT_FOLDER p \<longrightarrow> map_of fs5 p = map_of fs p"
    using is_under_child[of OUTPUT_FOLDER] by (auto simp: m5 m4 m3 m2 m1)
  show ?thesis using st d5 A B C by blast
qed

lemma walk_members_set:
  assumes "distinct (map fst fs)"
  shows "(name, c) \<in> set (walk_members fs d)
         \<longleftrightarrow> (\<exists>p. map_of fs p = Some (File c) \<and> is_under d p \<and> name = drop (length d + 1) p)"
proof -
  have "(name, c) \<in> set (walk_members fs d)
        \<longleftrightarrow> (\<exists>p. (p, File c) \<in> set fs \<and> is_under d p \<and> name = drop (length d + 1) p)"
    unfolding walk_members_def by (auto split: entry.splits if_splits)
  also have "\<dots> \<longleftrightarrow> (\<exists>p. map_of fs p = Some (File c) \<and> is_under d p \<and> name = drop (length d + 1) p)"
    using assms by (auto simp: map_of_eq_Some_iff)
  finally show ?thesis .
qed

lemma zip_name_facts:
  assumes "CHR ''/'' \<notin> set ver" and "CHR ''/'' \<notin> set target"
  shows "zip_file_name_of ver target \<noteq> OUTPUT_FOLDER"
    and "\<not> is_under OUTPUT_FOLDER (zip_file_name_of ver target)"
    and "CHR ''/'' \<notin> set (zip_file_name_of ver target)"
  using assms by (simp_all add: zip_file_name_of_def OUTPUT_FOLDER_def is_under_def)

text \<open>
  Claim C8, as amended. In a working directory fit for a build, when the script is
  invoked with \<open>--as-zip\<close> and the target version is given or can be read from
  \<open>bl_info\<close>, \<open>main\<close> builds the archive
  \<open>emission_atlas_{version}_blender_{target_blender}.zip\<close>; its members are exactly
  the addon script and those of \<open>LICENSE\<close> and \<open>README.md\<close> that are present, each
  with its content; afterwards the staging folder and everything below it are gone, and
  no other path has changed.
\<close>

theorem main_builds_archive:
  assumes ready: "build_ready fs"
    and zip: "''--as-zip'' \<in> set (drop 1 argv)"
    and target: "resolve_target parse (parse_args argv) fs = Inr (Some target)"
    and ver: "resolve_version parse (parse_args argv) fs = Inr ver"
    and plain: "CHR ''/'' \<notin> set ver" "CHR ''/'' \<notin> set target"
    and nodir: "map_of fs (zip_file_name_of ver target) \<noteq> Some Dir"
  shows "\<exists>fs' members.
           main parse zip_encode argv fs = Inr fs'
           \<and> map_of fs' (zip_file_name_of ver target) = Some (File (zip_encode members))
           \<and> (\<forall>name c. (name, c) \<in> set members
                 \<longleftrightarrow> name \<in> {SCRIPT_FILE, ''LICENSE'', ''README.md''}
                     \<and> map_of fs name = Some (File c))
           \<and> (\<forall>p. p = OUTPUT_FOLDER \<or> is_under OUTPUT_FOLDER p \<longrightarrow> map_of fs' p = None)
           \<and> (\<forall>p. p \<noteq> OUTPUT_FOLDER \<and> \<not> is_under OUTPUT_FOLDER p
                   \<and> p \<noteq> zip_file_name_of ver target \<longrightarrow> map_of fs' p = map_of fs p)"
proof -
  let ?z = "zip_file_name_of ver target"
  note zf = zip_name_facts[OF plain]
  from stage_ok[OF ready] obtain fs5 where
    st: "stage fs = Inr fs5" and d5: "distinct (map fst fs5)"
    and out5: "map_of fs5 OUTPUT_FOLDER = Some Dir"
    and in5: "\<And>name. map_of fs5 (OUTPUT_FOLDER @ ''/'' @ name)
                  = (if name \<in> {SCRIPT_FILE, ''LICENSE'', ''README.md''} then map_of fs name
                     else None)"
    and rest5: "\<And>p. p \<noteq> OUTPUT_FOLDER \<and> \<not> is_under OUTPUT_FOLDER p \<Longrightarrow> map_of fs5 p = map_of fs p"
    by blast
  let ?members = "walk_members fs5 OUTPUT_FOLDER"
  define fs6 where "fs6 = AList.update ?z (File (zip_encode ?members)) fs5"
  have z5: "map_of fs5 ?z \<noteq> Some Dir" using rest5[of ?z] zf nodir by simp
  have cf: "create_file fs5 ?z (zip_encode ?members) = Inr fs6"
    using z5 zf(3) by (simp add: create_file_def fs6_def)
  have m6: "\<And>p. map_of fs6 p = (if p = ?z then Some (File (zip_encode ?members)) else map_of fs5 p)"
    by (simp add: fs6_def update_conv')
  have out6: "map_of fs6 OUTPUT_FOLDER = Some Dir" using zf(1) out5 by (simp add: m6)
  define fs' where "fs' = filter (\<lambda>(p, e). p \<noteq> OUTPUT_FOLDER \<and> \<not> is_under OUTPUT_FOLDER p) fs6"
  have rm: "rmtree fs6 OUTPUT_FOLDER = Inr fs'" using out6 by (simp add: rmtree_def fs'_def)
  have m': "\<And>p. map_of fs' p = (if p \<noteq> OUTPUT_FOLDER \<and> \<not> is_under OUTPUT_FOLDER p
                                  then map_of fs6 p else None)"
    unfolding fs'_def by (rule map_of_filter_key)
  have run: "main parse zip_encode argv fs = Inr fs'"
    using zip by (simp add: main_def Let_def target ver st parse_args_as_zip cf rm)
  have A: "map_of fs' ?z = Some (File (zip_encode ?members))" using zf by (simp add: m' m6)
  have B: "\<forall>name c. (name, c) \<in> set ?members
                 \<longleftrightarrow> name \<in> {SCRIPT_FILE, ''LICENSE'', ''README.md''}
                     \<and> map_of fs name = Some (File c)"
  proof (intro allI iffI)
    fix name c
    assume "(name, c) \<in> set ?members"
    then obtain p where p: "map_of fs5 p = Some (File c)" "is_under OUTPUT_FOLDER p"
      "name = drop (length OUTPUT_FOLDER + 1) p"
      using walk_members_set[OF d5] by blast
    from is_under_split[OF p(2)] p(3) have "p = OUTPUT_FOLDER @ ''/'' @ name" by simp
    with p(1) in5[of name] show "name \<in> {SCRIPT_FILE, ''LICENSE'', ''README.md''}
                     \<and> map_of fs name = Some (File c)"
      by (auto split: if_splits)
  next
    fix name c
    assume a: "name \<in> {SCRIPT_FILE, ''LICENSE'', ''README.md''} \<and> map_of fs name = Some (File c)"
    let ?p = "OUTPUT_FOLDER @ ''/'' @ name"
    have "map_of fs5 ?p = Some (File c)" using a in5[of name] by simp
    moreover have "is_under OUTPUT_FOLDER ?p" using is_under_child[of OUTPUT_FOLDER name] by simp
    moreover have "name = drop (length OUTPUT_FOLDER + 1) ?p" by simp
    ultimately show "(name, c) \<in> set ?members"
      using walk_members_set[OF d5, of name c OUTPUT_FOLDER] by blast
  qed
  have C: "\<forall>p. p = OUTPUT_FOLDER \<or> is_under OUTPUT_FOLDER p \<longrightarrow> map_of fs' p = None"
    by (auto simp: m')
  have D: "\<forall>p. p \<noteq> OUTPUT_FOLDER \<and> \<not> is_under OUTPUT_FOLDER p \<and> p \<noteq> ?z
              \<longrightarrow> map_of fs' p = map_of fs p"
    using rest5 by (simp add: m' m6)
  show ?thesis using run A B C D by blast
qed

lemmas main_eval =
  main_def parse_args_def parse_arg_def starts_with_def resolve_target_def resolve_version_def
  get_blender_version_def get_version_def increment_version_def read_text_def stage_def
  path_exists_def rmtree_def mkdir_def copy_def create_file_def parent_dir_def walk_members_def
  is_under_def zip_file_name_of_def SCRIPT_FILE_def OUTPUT_FOLDER_def py_int_def parse_nat_def
  digit_val_def digit_char_def str_int_def str_nat.simps Let_def upt_conv_Cons

lemma release_dir_ready: "build_ready release_dir"
  by (simp add: build_ready_def release_dir_def SCRIPT_FILE_def OUTPUT_FOLDER_def is_under_def)

theorem main_builds_archive_witness:
  "build_ready release_dir
   \<and> (\<exists>fs' members.
         main atlas_bl_info listing_zip [''package_release.py'', ''--as-zip''] release_dir = Inr fs'
         \<and> map_of fs' ''emission_atlas_1.4_blender_4.1.1.zip'' = Some (File (listing_zip members))
         \<and> set members = {(''emission_atlas.py'', ''bl_info''), (''LICENSE'', ''MIT'')}
         \<and> map_of fs' ''emission_atlas'' = None
         \<and> map_of fs' ''emission_atlas/emission_atlas.py'' = None)"
proof -
  let ?argv = "[''package_release.py'', ''--as-zip'']"
  have zip: "''--as-zip'' \<in> set (drop 1 ?argv)" by simp
  have target: "resolve_target atlas_bl_info (parse_args ?argv) release_dir = Inr (Some ''4.1.1'')"
    by (simp add: main_eval atlas_bl_info_def release_dir_def)
  have ver: "resolve_version atlas_bl_info (parse_args ?argv) release_dir = Inr ''1.4''"
    by (simp add: main_eval atlas_bl_info_def release_dir_def)
  have plain: "CHR ''/'' \<notin> set ''1.4''" "CHR ''/'' \<notin> set ''4.1.1''" by simp_all
  have z: "zip_file_name_of ''1.4'' ''4.1.1'' = ''emission_atlas_1.4_blender_4.1.1.zip''"
    by (simp add: zip_file_name_of_def)
  have nodir: "map_of release_dir (zip_file_name_of ''1.4'' ''4.1.1'') \<noteq> Some Dir"
    by (simp add: z release_dir_def)
  from main_builds_archive[OF release_dir_ready zip target ver plain nodir, of listing_zip]
  obtain fs' members where
    run: "main atlas_bl_info listing_zip ?argv release_dir = Inr fs'"
    and arch: "map_of fs' (zip_file_name_of ''1.4'' ''4.1.1'') = Some (File (listing_zip members))"
    and mem: "\<And>name c. (name, c) \<in> set members
                 \<longleftrightarrow> name \<in> {SCRIPT_FILE, ''LICENSE'', ''README.md''}
                     \<and> map_of release_dir name = Some (File c)"
    and gone: "\<And>p. p = OUTPUT_FOLDER \<or> is_under OUTPUT_FOLDER p \<Longrightarrow> map_of fs' p = None"
    by blast
  have "set members = {(''emission_atlas.py'', ''bl_info''), (''LICENSE'', ''MIT'')}"
  proof (rule set_eqI)
    fix x :: "string \<times> string"
    obtain name c where x: "x = (name, c)" by (cases x)
    show "x \<in> set members \<longleftrightarrow> x \<in> {(''emission_atlas.py'', ''bl_info''), (''LICENSE'', ''MIT'')}"
      unfolding x mem by (auto simp: release_dir_def SCRIPT_FILE_def)
  qed
  moreover have "map_of fs' ''emission_atlas'' = None"
    using gone[of "''emission_atlas''"] by (simp add: OUTPUT_FOLDER_def)
  moreover have "map_of fs' ''emission_atlas/emission_atlas.py'' = None"
    using gone[of "''emission_atlas/emission_atlas.py''"] by (simp add: OUTPUT_FOLDER_def is_under_def)
  ultimately show ?thesis using release_dir_ready run arch z by auto
qed

text \<open>
  Claim C8 as stated fails when the target version is neither given nor readable from
  \<open>bl_info\<close>: invoked with \<open>--as-zip\<close> in a directory fit for a build, \<open>main\<close> reports
  the error and returns; the directory is as before, with no archive in it.
\<close>

theorem main_without_target_builds_nothing:
  "build_ready release_dir
   \<and> main no_bl_info listing_zip [''package_release.py'', ''--as-zip''] release_dir
       = Inr release_dir
   \<and> map fst release_dir = [''emission_atlas.py'', ''LICENSE'', ''package_release.py'']"
proof -
  have "main no_bl_info listing_zip [''package_release.py'', ''--as-zip''] release_dir
       = Inr release_dir"
    by (simp add: main_eval no_bl_info_def release_dir_def)
  moreover have "map fst release_dir = [''emission_atlas.py'', ''LICENSE'', ''package_release.py'']"
    by (simp add: release_dir_def)
  ultimately show ?thesis using release_dir_ready by simp
qed


end
